theory Spec2Isabelle
  imports Main
begin

section \<open>Data model (ast-types.ts)\<close>

text \<open>
  The generator works on plain JavaScript objects. A property value is an object with a
  string discriminator \<open>type\<close> and a payload; a property is the same object with a
  \<open>name\<close> and an \<open>optional\<close> flag added (\<open>ASTProperty = ASTPropertyValue & {...}\<close>).
  The analyzer copies nodes with object spread and may add \<open>recursiveEdge\<close> to any of
  them, so the three attributes are carried by every node: \<open>recursiveEdge\<close> is
  \<open>False\<close> where the field is absent, \<open>pname\<close> is the property name (empty on a node
  that is not a property), \<open>optional\<close> is \<open>False\<close> where absent.
\<close>

record attrs =
  recursiveEdge :: bool
  pname :: string
  optional :: bool

text \<open>
  A constant is a string, a number or a boolean. A number is carried as the text that
  \<open>toString()\<close> prints for it, which is all the generator uses.
\<close>

datatype cval = CStr string | CNum string | CBool bool

datatype node =
    PrimitiveP attrs string
  | ConstantP attrs cval
  | UnionP attrs "node list"
  | IntersectionP attrs "node list"
  | ArrayP attrs "node list"
  | TupleP attrs "node list"
  | ObjectP attrs "node list"
  | RecordP attrs "node list"
  | IndexSignatureP attrs node node
  | FunctionP attrs node
  | PromiseP attrs "node list"
  | ReferenceP attrs string
  | TypeOperatorP attrs string node
  | MappedP attrs string node node
  | ConditionalP attrs node node node node
  | EnumP attrs "cval list"

fun attrs_of :: "node \<Rightarrow> attrs" where
  "attrs_of (PrimitiveP a _) = a"
| "attrs_of (ConstantP a _) = a"
| "attrs_of (UnionP a _) = a"
| "attrs_of (IntersectionP a _) = a"
| "attrs_of (ArrayP a _) = a"
| "attrs_of (TupleP a _) = a"
| "attrs_of (ObjectP a _) = a"
| "attrs_of (RecordP a _) = a"
| "attrs_of (IndexSignatureP a _ _) = a"
| "attrs_of (FunctionP a _) = a"
| "attrs_of (PromiseP a _) = a"
| "attrs_of (ReferenceP a _) = a"
| "attrs_of (TypeOperatorP a _ _) = a"
| "attrs_of (MappedP a _ _ _) = a"
| "attrs_of (ConditionalP a _ _ _ _) = a"
| "attrs_of (EnumP a _) = a"

fun set_attrs :: "attrs \<Rightarrow> node \<Rightarrow> node" where
  "set_attrs b (PrimitiveP a v) = PrimitiveP b v"
| "set_attrs b (ConstantP a v) = ConstantP b v"
| "set_attrs b (UnionP a v) = UnionP b v"
| "set_attrs b (IntersectionP a v) = IntersectionP b v"
| "set_attrs b (ArrayP a v) = ArrayP b v"
| "set_attrs b (TupleP a v) = TupleP b v"
| "set_attrs b (ObjectP a v) = ObjectP b v"
| "set_attrs b (RecordP a v) = RecordP b v"
| "set_attrs b (IndexSignatureP a k v) = IndexSignatureP b k v"
| "set_attrs b (FunctionP a v) = FunctionP b v"
| "set_attrs b (PromiseP a v) = PromiseP b v"
| "set_attrs b (ReferenceP a v) = ReferenceP b v"
| "set_attrs b (TypeOperatorP a ope v) = TypeOperatorP b ope v"
| "set_attrs b (MappedP a p c v) = MappedP b p c v"
| "set_attrs b (ConditionalP a c e t f) = ConditionalP b c e t f"
| "set_attrs b (EnumP a v) = EnumP b v"

text \<open>The string discriminator \<open>type\<close> of a node.\<close>

fun type_of :: "node \<Rightarrow> string" where
  "type_of (PrimitiveP _ _) = ''primitive''"
| "type_of (ConstantP _ _) = ''constant''"
| "type_of (UnionP _ _) = ''union''"
| "type_of (IntersectionP _ _) = ''intersection''"
| "type_of (ArrayP _ _) = ''array''"
| "type_of (TupleP _ _) = ''tuple''"
| "type_of (ObjectP _ _) = ''object''"
| "type_of (RecordP _ _) = ''record''"
| "type_of (IndexSignatureP _ _ _) = ''indexSignature''"
| "type_of (FunctionP _ _) = ''function''"
| "type_of (PromiseP _ _) = ''promise''"
| "type_of (ReferenceP _ _) = ''reference''"
| "type_of (TypeOperatorP _ _ _) = ''typeOperator''"
| "type_of (MappedP _ _ _ _) = ''mapped''"
| "type_of (ConditionalP _ _ _ _ _) = ''conditional''"
| "type_of (EnumP _ _) = ''enum''"

text \<open>
  An inherited base: the inheritance expression, the file of its resolved location when
  there is one, and the aggregated properties (empty where the field is absent).
\<close>

record inherit =
  expr :: string
  location :: "string option"
  iproperties :: "node list"

datatype ebody =
    InstanceE "node list" "inherit list"
  | UnionE "node list"
  | AliasE "string list"
  | ArrayE node
  | PrimitiveE node
  | ConstantE node
  | EnumE "string list"
  | PlaceholderE

record entity =
  name :: string
  body :: ebody
  hasRecursion :: bool
  cycleGroup :: "string list option"
  generics :: "string list"
  instanceKind :: "string option"
  efile :: "string option"

fun kind_of :: "ebody \<Rightarrow> string" where
  "kind_of (InstanceE _ _) = ''instance''"
| "kind_of (UnionE _) = ''union''"
| "kind_of (AliasE _) = ''alias''"
| "kind_of (ArrayE _) = ''array''"
| "kind_of (PrimitiveE _) = ''primitive''"
| "kind_of (ConstantE _) = ''constant''"
| "kind_of (EnumE _) = ''enum''"
| "kind_of PlaceholderE = ''placeholder''"

definition etype :: "entity \<Rightarrow> string" where
  "etype e = kind_of (body e)"

section \<open>Emission selection among same-named entities (generation.ts, generate)\<close>

text \<open>The table \<open>precedence\<close>, read as \<open>precedence[k] ?? 0\<close>.\<close>

definition precedence :: "string \<Rightarrow> nat" where
  "precedence k =
     (if k = ''instance'' then 7
      else if k = ''enum'' then 6
      else if k = ''alias'' then 5
      else if k = ''union'' then 4
      else if k = ''array'' then 3
      else if k = ''primitive'' then 3
      else if k = ''constant'' then 2
      else if k = ''placeholder'' then 1
      else 0)"

text \<open>
  One round of the pre-scan \<open>data.forEach\<close>: the first entity of a name sets the kind
  (\<open>!prev\<close> holds when the entry is missing or the empty string), a later one replaces it
  only when its rank is strictly higher.
\<close>

definition bestKindStep :: "(string \<rightharpoonup> string) \<Rightarrow> entity \<Rightarrow> (string \<rightharpoonup> string)" where
  "bestKindStep m item =
     (case m (name item) of
        None \<Rightarrow> m(name item \<mapsto> etype item)
      | Some prev \<Rightarrow>
          if prev = [] then m(name item \<mapsto> etype item)
          else if precedence (etype item) > precedence prev
               then m(name item \<mapsto> etype item)
               else m)"

definition nameToBestKind :: "entity list \<Rightarrow> (string \<rightharpoonup> string)" where
  "nameToBestKind data = foldl bestKindStep Map.empty data"

text \<open>The \<open>filter\<close> in front of the emission: \<open>best === item.type\<close>.\<close>

definition emitted :: "entity list \<Rightarrow> entity list" where
  "emitted data = filter (\<lambda>item. nameToBestKind data (name item) = Some (etype item)) data"

definition mkEntity :: "string \<Rightarrow> ebody \<Rightarrow> entity" where
  "mkEntity n b = \<lparr>name = n, body = b, hasRecursion = False, cycleGroup = None,
                   generics = [], instanceKind = None, efile = None\<rparr>"

section \<open>Strings as JavaScript reads them\<close>

text \<open>
  A \<open>string\<close> is a list of 8-bit characters, read as the code units of a JavaScript
  string in the Latin-1 range.
\<close>

definition is_upper :: "char \<Rightarrow> bool" where
  "is_upper c = (let n = (of_char c :: nat) in 65 \<le> n \<and> n \<le> 90)"

definition is_lower :: "char \<Rightarrow> bool" where
  "is_lower c = (let n = (of_char c :: nat) in 97 \<le> n \<and> n \<le> 122)"

definition is_digit :: "char \<Rightarrow> bool" where
  "is_digit c = (let n = (of_char c :: nat) in 48 \<le> n \<and> n \<le> 57)"

text \<open>The class \<open>[A-Za-z0-9_]\<close>, which is also \<open>\w\<close>.\<close>

definition is_word :: "char \<Rightarrow> bool" where
  "is_word c = (is_upper c \<or> is_lower c \<or> is_digit c \<or> c = CHR ''_'')"

text \<open>The classes \<open>[A-Za-z_$]\<close> and \<open>[A-Za-z0-9_$]\<close>.\<close>

definition is_ident_start :: "char \<Rightarrow> bool" where
  "is_ident_start c = (is_upper c \<or> is_lower c \<or> c = CHR ''_'' \<or> c = CHR ''$'')"

definition is_ident :: "char \<Rightarrow> bool" where
  "is_ident c = (is_word c \<or> c = CHR ''$'')"

text \<open>White space of \<open>trim()\<close> and \<open>\s\<close> among the Latin-1 code units.\<close>

definition is_space :: "char \<Rightarrow> bool" where
  "is_space c = (let n = (of_char c :: nat) in (9 \<le> n \<and> n \<le> 13) \<or> n = 32 \<or> n = 160)"

definition trim :: "string \<Rightarrow> string" where
  "trim s = rev (dropWhile is_space (rev (dropWhile is_space s)))"

definition startsWith :: "'a list \<Rightarrow> 'a list \<Rightarrow> bool" where
  "startsWith s p = (take (length p) s = p)"

fun str_includes :: "'a list \<Rightarrow> 'a list \<Rightarrow> bool" where
  "str_includes [] p = (p = [])"
| "str_includes (c # cs) p = (startsWith (c # cs) p \<or> str_includes cs p)"

text \<open>\<open>s.split(".")\<close>: never empty, \<open>"".split(".")\<close> is \<open>[""]\<close>.\<close>

fun split_dot :: "string \<Rightarrow> string list" where
  "split_dot [] = [[]]"
| "split_dot (c # cs) =
     (if c = CHR ''.'' then [] # split_dot cs
      else (case split_dot cs of [] \<Rightarrow> [[c]] | w # ws \<Rightarrow> (c # w) # ws))"

text \<open>\<open>xs.join(sep)\<close> on strings.\<close>

fun join :: "string \<Rightarrow> string list \<Rightarrow> string" where
  "join sep [] = []"
| "join sep [x] = x"
| "join sep (x # y # ys) = x @ sep @ join sep (y # ys)"

text \<open>
  \<open>s.match(/\.([A-Za-z0-9_]+)$/)\<close>, the first capture group of the leftmost match: a dot
  followed by word characters up to the end of the string.
\<close>

fun match_dot_word_end :: "string \<Rightarrow> string option" where
  "match_dot_word_end [] = None"
| "match_dot_word_end (c # cs) =
     (if c = CHR ''.'' \<and> cs \<noteq> [] \<and> list_all is_word cs then Some cs
      else match_dot_word_end cs)"

text \<open>\<open>match?.[1] ?? refVal\<close>, as the generator computes a type name from a reference.\<close>

definition refTypeName :: "string \<Rightarrow> string" where
  "refTypeName refVal = (case match_dot_word_end refVal of Some n \<Rightarrow> n | None \<Rightarrow> refVal)"

text \<open>
  \<open>s.match(/import\([^)]+\)\.([A-Za-z_$][A-Za-z0-9_$]*)/)\<close>: the match attempt at the start
  of \<open>s\<close>, then the leftmost match anywhere in \<open>s\<close>. The result is the first capture
  group.
\<close>

definition import_at :: "string \<Rightarrow> string option" where
  "import_at s =
     (if startsWith s ''import('' then
        (let r = drop 7 s; inside = takeWhile (\<lambda>c. c \<noteq> CHR '')'') r;
             rest = dropWhile (\<lambda>c. c \<noteq> CHR '')'') r
         in if inside = [] then None
            else (case rest of
                    p # d # i # others \<Rightarrow>
                      if p = CHR '')'' \<and> d = CHR ''.'' \<and> is_ident_start i
                      then Some (i # takeWhile is_ident others) else None
                  | _ \<Rightarrow> None))
      else None)"

fun match_import :: "string \<Rightarrow> string option" where
  "match_import [] = None"
| "match_import (c # cs) =
     (case import_at (c # cs) of Some n \<Rightarrow> Some n | None \<Rightarrow> match_import cs)"

section \<open>Generator inference (generator/faker-infer.ts, category.ts)\<close>

datatype js_error = TypeError | SyntaxError | PatternOutsideModel

datatype log = Warn string | Error string

text \<open>
  A \<open>RegExp\<close> object is used through its method \<open>test\<close> only, and is modelled by that
  method. The constructor \<open>new RegExp(source, "i")\<close> belongs to the platform; it is a
  parameter \<open>newRegExp\<close> of the functions that compile patterns, and returns the compiled
  expression or raises (a SyntaxError, for a source that is not a regular expression).
\<close>

type_synonym regexp = "string \<Rightarrow> bool"

type_synonym regexp_constructor = "string \<Rightarrow> js_error + regexp"

text \<open>
  \<open>generateRegexp\<close>: \<open>text.replace(/\./g, "\\.").replace(/\*/g, ".*?")\<close> between \<open>^\<close> and
  \<open>$\<close>. Every other character of the pattern reaches the constructor as it is.
\<close>

definition escape_dots :: "string \<Rightarrow> string" where
  "escape_dots text = concat (map (\<lambda>c. if c = CHR ''.'' then [CHR 0x5C, CHR ''.''] else [c]) text)"

definition expand_stars :: "string \<Rightarrow> string" where
  "expand_stars text = concat (map (\<lambda>c. if c = CHR ''*'' then ''.*?'' else [c]) text)"

definition generateRegexp :: "regexp_constructor \<Rightarrow> string \<Rightarrow> js_error + regexp" where
  "generateRegexp newRegExp text = newRegExp (''^'' @ expand_stars (escape_dots text) @ ''$'')"

type_synonym matchers = "(regexp \<times> string) list"

text \<open>
  A JavaScript object with string keys is modelled by its own properties in insertion
  order (keys distinct). \<open>Object.entries\<close> lists the keys that are array indices first, in
  ascending numeric order, then the other keys in insertion order.
\<close>

definition num_of_digits :: "string \<Rightarrow> nat" where
  "num_of_digits s = foldl (\<lambda>n c. 10 * n + (of_char c - 48)) 0 s"

definition is_array_index :: "string \<Rightarrow> bool" where
  "is_array_index s =
     (s \<noteq> [] \<and> list_all is_digit s \<and> (s = ''0'' \<or> hd s \<noteq> CHR ''0'')
      \<and> num_of_digits s < 4294967295)"

definition object_entries :: "(string \<times> 'v) list \<Rightarrow> (string \<times> 'v) list" where
  "object_entries obj =
     sort_key (\<lambda>kv. num_of_digits (fst kv)) (filter (\<lambda>kv. is_array_index (fst kv)) obj)
     @ filter (\<lambda>kv. \<not> is_array_index (fst kv)) obj"

text \<open>
  \<open>defineGeneratorMatchers\<close>: for each generator in \<open>Object.entries\<close> order, for each of
  its patterns in order, one compiled entry. \<open>patterns.forEach\<close> raises a TypeError when
  the value is a string; a pattern that the constructor rejects ends the loop with its
  exception.
\<close>

datatype mval = MStr string | MList "string list"

fun compile_patterns :: "regexp_constructor \<Rightarrow> string \<Rightarrow> string list \<Rightarrow> js_error + matchers" where
  "compile_patterns newRegExp g [] = Inr []"
| "compile_patterns newRegExp g (p # ps) =
     (case generateRegexp newRegExp p of
        Inl e \<Rightarrow> Inl e
      | Inr r \<Rightarrow>
          (case compile_patterns newRegExp g ps of
             Inl e \<Rightarrow> Inl e
           | Inr ms \<Rightarrow> Inr ((r, g) # ms)))"

fun compile_entries :: "regexp_constructor \<Rightarrow> (string \<times> mval) list \<Rightarrow> js_error + matchers" where
  "compile_entries newRegExp [] = Inr []"
| "compile_entries newRegExp ((g, v) # rest) =
     (case v of
        MStr _ \<Rightarrow> Inl TypeError
      | MList ps \<Rightarrow>
          (case compile_patterns newRegExp g ps of
             Inl e \<Rightarrow> Inl e
           | Inr ms \<Rightarrow>
               (case compile_entries newRegExp rest of
                  Inl e \<Rightarrow> Inl e
                | Inr ms' \<Rightarrow> Inr (ms @ ms'))))"

definition defineGeneratorMatchers :: "regexp_constructor \<Rightarrow> (string \<times> mval) list \<Rightarrow> js_error + matchers" where
  "defineGeneratorMatchers newRegExp mapping = compile_entries newRegExp (object_entries mapping)"

text \<open>The matcher that \<open>defineGeneratorMatchers\<close> returns: \<open>filter(...).at(0)?.[1]\<close>.\<close>

definition inferGenerator :: "matchers \<Rightarrow> string \<Rightarrow> string option" where
  "inferGenerator ms path =
     (case filter (\<lambda>m. (fst m) path) ms of [] \<Rightarrow> None | m # _ \<Rightarrow> Some (snd m))"

text \<open>
  \<open>setMappings\<close>. The new shape (pattern to generator) is regrouped into the legacy shape
  (generator to patterns) in a fresh object \<open>normalized\<close>: \<open>normalized[g]\<close> is created at
  the first pattern of \<open>g\<close> and later patterns of \<open>g\<close> are pushed to it. A generator named
  like a member of \<open>Object.prototype\<close> finds that member in the empty object, and
  \<open>push\<close> on it raises a TypeError.
\<close>

definition object_prototype_keys :: "string list" where
  "object_prototype_keys =
     [''constructor'', ''__defineGetter__'', ''__defineSetter__'', ''hasOwnProperty'',
      ''__lookupGetter__'', ''__lookupSetter__'', ''isPrototypeOf'', ''propertyIsEnumerable'',
      ''toString'', ''valueOf'', ''__proto__'', ''toLocaleString'']"

fun push_pattern :: "string \<Rightarrow> string \<Rightarrow> (string \<times> mval) list \<Rightarrow> (string \<times> mval) list" where
  "push_pattern g p [] = [(g, MList [p])]"
| "push_pattern g p ((k, v) # rest) =
     (if k = g then (k, (case v of MList ps \<Rightarrow> MList (ps @ [p]) | MStr s \<Rightarrow> MStr s)) # rest
      else (k, v) # push_pattern g p rest)"

fun normalize :: "(string \<times> mval) list \<Rightarrow> (string \<times> mval) list \<Rightarrow> js_error + (string \<times> mval) list" where
  "normalize [] normalized = Inr normalized"
| "normalize ((pattern, generator) # rest) normalized =
     (case generator of
        MList _ \<Rightarrow> normalize rest normalized
      | MStr g \<Rightarrow>
          if g \<notin> fst ` set normalized \<and> g \<in> set object_prototype_keys then Inl TypeError
          else normalize rest (push_pattern g pattern normalized))"

definition setMappings :: "regexp_constructor \<Rightarrow> (string \<times> mval) list option \<Rightarrow> js_error + matchers" where
  "setMappings newRegExp mappings =
     (case mappings of
        None \<Rightarrow> defineGeneratorMatchers newRegExp []
      | Some m \<Rightarrow>
          (case object_entries m of
             [] \<Rightarrow> defineGeneratorMatchers newRegExp []
           | (_, firstVal) # _ \<Rightarrow>
               (case firstVal of
                  MStr _ \<Rightarrow>
                    (case normalize (object_entries m) [] of
                       Inl e \<Rightarrow> Inl e
                     | Inr normalized \<Rightarrow> defineGeneratorMatchers newRegExp normalized)
                | MList _ \<Rightarrow> defineGeneratorMatchers newRegExp m)))"

text \<open>\<open>inferMapping\<close>: \<open>inferGenerator(path) || null\<close>, so an empty expression is no mapping.\<close>

definition inferMapping :: "matchers \<Rightarrow> string \<Rightarrow> string option" where
  "inferMapping ms path =
     (case inferGenerator ms path of Some g \<Rightarrow> (if g = [] then None else Some g) | None \<Rightarrow> None)"

text \<open>
  The generation context, and the mapping provider: a callback of the consuming project,
  which returns a string, returns \<open>undefined\<close> or \<open>null\<close>, or throws.
\<close>

record generationContext =
  entityName :: "string option"
  entityHasRecursion :: bool
  genericParamSet :: "string list"
  typesWithOptions :: "string list"

datatype presult = PValue string | PNullish | PThrows string

type_synonym provider = "string \<Rightarrow> string \<Rightarrow> generationContext \<Rightarrow> presult"

text \<open>The module-level state: the compiled matchers and the optional provider.\<close>

record config =
  inferMatchers :: matchers
  mappingProviderFunc :: "provider option"

text \<open>
  Canonicalisation under the flag \<open>i\<close>: the code of the upper-case code unit, for the
  Latin-1 letters whose upper case is again one Latin-1 code unit.
\<close>

definition canonicalize :: "char \<Rightarrow> nat" where
  "canonicalize c =
     (let n = (of_char c :: nat)
      in if (97 \<le> n \<and> n \<le> 122) \<or> (224 \<le> n \<and> n \<le> 254 \<and> n \<noteq> 247)
         then n - 32 else n)"

text \<open>\<open>/string\.|uuid\(|alphanumeric\(/i.test(s)\<close>.\<close>

definition looks_stringy :: "string \<Rightarrow> bool" where
  "looks_stringy s =
     (let u = map canonicalize s
      in str_includes u (map canonicalize ''string.'') \<or> str_includes u (map canonicalize ''uuid('')
         \<or> str_includes u (map canonicalize ''alphanumeric(''))"

definition default_for :: "string \<Rightarrow> string" where
  "default_for type =
     (if type = ''any'' \<or> type = ''string'' then ''faker.lorem.words()''
      else if type = ''unknown'' then ''{}''
      else if type = ''number'' then ''faker.number.int(10000)''
      else if type = ''boolean'' then ''faker.datatype.boolean()''
      else if type = ''null'' then ''null''
      else if type = ''date'' then ''faker.date.recent()''
      else if type = ''object'' then ''{}''
      else ''faker.lorem.words()'')"

text \<open>What \<open>getFakerGenerator\<close> does after the provider has not answered.\<close>

definition staticGenerator :: "matchers \<Rightarrow> string \<Rightarrow> string \<Rightarrow> string" where
  "staticGenerator ms type path =
     (case inferGenerator ms path of
        None \<Rightarrow> default_for type
      | Some nameBased \<Rightarrow>
          if nameBased = [] then default_for type
          else if type = ''number'' \<and> looks_stringy nameBased then ''faker.number.int(10000)''
          else if type = ''date'' \<and> looks_stringy nameBased then ''faker.date.recent()''
          else if type = ''boolean'' \<and> looks_stringy nameBased then ''faker.datatype.boolean()''
          else nameBased)"

text \<open>
  \<open>getFakerGenerator\<close>: the lines written to the console and the expression returned.
  The \<open>try\<close> block holds the call of the provider; its \<open>catch\<close> writes one error line.
\<close>

definition getFakerGenerator :: "config \<Rightarrow> string \<Rightarrow> string \<Rightarrow> generationContext \<Rightarrow> log list \<times> string" where
  "getFakerGenerator cfg type path ctx =
     (case mappingProviderFunc cfg of
        None \<Rightarrow> ([], staticGenerator (inferMatchers cfg) type path)
      | Some f \<Rightarrow>
          (case f type path ctx of
             PValue v \<Rightarrow> ([], v)
           | PNullish \<Rightarrow> ([], staticGenerator (inferMatchers cfg) type path)
           | PThrows err \<Rightarrow>
               ([Error (''mappingProvider threw: '' @ err)],
                staticGenerator (inferMatchers cfg) type path)))"

section \<open>The constructor RegExp on wildcard sources\<close>

text \<open>
  A model of \<open>new RegExp(source, "i")\<close> for the sources \<open>^...$\<close> whose body is a sequence
  of single characters, dots and escaped syntax characters, each with an optional
  quantifier \<open>*\<close>, \<open>+\<close> or \<open>?\<close> (greedy or lazy). These are the sources that
  \<open>generateRegexp\<close> builds from patterns without groups, classes, alternatives and
  braces. For any other source the answer is \<open>PatternOutsideModel\<close>: the model does not
  say what the platform does with it.
\<close>

datatype re_atom = RChar char | RAny

datatype re_quantifier = Once | ZeroOrMore | OneOrMore | ZeroOrOne

type_synonym re_term = "re_atom \<times> re_quantifier"

definition is_re_syntax :: "char \<Rightarrow> bool" where
  "is_re_syntax c = (c = CHR 0x5C \<or> c \<in> set ''^$.*+?()[]{}|'')"

text \<open>The dot of a regular expression without the flag \<open>s\<close> skips line terminators.\<close>

definition is_line_terminator :: "char \<Rightarrow> bool" where
  "is_line_terminator c = (let n = (of_char c :: nat) in n = 10 \<or> n = 13)"

fun atom_test :: "re_atom \<Rightarrow> char \<Rightarrow> bool" where
  "atom_test (RChar c) d = (canonicalize c = canonicalize d)"
| "atom_test RAny d = (\<not> is_line_terminator d)"

text \<open>
  \<open>re.test(path)\<close> for a source anchored at both ends: the whole of \<open>path\<close> must match.
  Whether a quantifier is greedy or lazy does not change the answer of \<open>test\<close>.
\<close>

fun re_test :: "re_term list \<Rightarrow> string \<Rightarrow> bool" where
  "re_test [] s = (s = [])"
| "re_test ((a, Once) # r) [] = False"
| "re_test ((a, Once) # r) (d # s) = (atom_test a d \<and> re_test r s)"
| "re_test ((a, ZeroOrOne) # r) [] = re_test r []"
| "re_test ((a, ZeroOrOne) # r) (d # s) = (re_test r (d # s) \<or> (atom_test a d \<and> re_test r s))"
| "re_test ((a, ZeroOrMore) # r) [] = re_test r []"
| "re_test ((a, ZeroOrMore) # r) (d # s) =
     (re_test r (d # s) \<or> (atom_test a d \<and> re_test ((a, ZeroOrMore) # r) s))"
| "re_test ((a, OneOrMore) # r) [] = False"
| "re_test ((a, OneOrMore) # r) (d # s) = (atom_test a d \<and> re_test ((a, ZeroOrMore) # r) s)"

text \<open>
  Reading the body of a source: an atom (a backslash with a syntax character or a slash
  after it, a dot, or a character that is not syntax), then its quantifier with an
  optional \<open>?\<close> for the lazy form.
\<close>

definition atom_of :: "string \<Rightarrow> (re_atom \<times> string) option" where
  "atom_of s =
     (case s of
        [] \<Rightarrow> None
      | c # cs \<Rightarrow>
          if c = CHR 0x5C then
            (case cs of
               [] \<Rightarrow> None
             | d # ds \<Rightarrow> if is_re_syntax d \<or> d = CHR ''/'' then Some (RChar d, ds) else None)
          else if c = CHR ''.'' then Some (RAny, cs)
          else if is_re_syntax c then None
          else Some (RChar c, cs))"

definition skip_lazy :: "string \<Rightarrow> string" where
  "skip_lazy s = (case s of [] \<Rightarrow> [] | c # cs \<Rightarrow> if c = CHR ''?'' then cs else s)"

definition quantifier_of :: "string \<Rightarrow> re_quantifier \<times> string" where
  "quantifier_of s =
     (case s of
        [] \<Rightarrow> (Once, [])
      | c # cs \<Rightarrow>
          if c = CHR ''*'' then (ZeroOrMore, skip_lazy cs)
          else if c = CHR ''+'' then (OneOrMore, skip_lazy cs)
          else if c = CHR ''?'' then (ZeroOrOne, skip_lazy cs)
          else (Once, s))"

lemma atom_of_shorter: "atom_of s = Some (a, rest) \<Longrightarrow> length rest < length s"
  by (auto simp: atom_of_def split: list.splits if_splits)

lemma quantifier_of_shorter: "quantifier_of s = (q, rest) \<Longrightarrow> length rest \<le> length s"
  by (auto simp: quantifier_of_def skip_lazy_def split: list.splits if_splits)

function parse_terms :: "string \<Rightarrow> re_term list option" where
  "parse_terms [] = Some []"
| "parse_terms (c # cs) =
     (case atom_of (c # cs) of
        None \<Rightarrow> None
      | Some (a, rest) \<Rightarrow>
          (case quantifier_of rest of
             (q, rest') \<Rightarrow> map_option (\<lambda>ts. (a, q) # ts) (parse_terms rest')))"
  by pat_completeness auto

termination
  apply (relation "measure length")
   apply simp
  apply clarsimp
  apply (drule atom_of_shorter)
  apply (drule quantifier_of_shorter[OF sym])
  apply simp
  done

definition wildcardRegExp :: regexp_constructor where
  "wildcardRegExp source =
     (case source of
        [] \<Rightarrow> Inl PatternOutsideModel
      | c # cs \<Rightarrow>
          if c = CHR ''^'' \<and> cs \<noteq> [] \<and> last cs = CHR ''$'' then
            (case parse_terms (butlast cs) of
               Some ts \<Rightarrow> Inr (re_test ts)
             | None \<Rightarrow> Inl PatternOutsideModel)
          else Inl PatternOutsideModel)"

section \<open>Value synthesis (generation.ts)\<close>

text \<open>
  A synthesis function returns a string, or \<open>undefined\<close> for a function type. Calling a
  string method on \<open>undefined\<close> raises a TypeError, which ends the run. The model returns
  the console lines written so far with the outcome.
\<close>

datatype jsval = Str string | Undefined

type_synonym 'a res = "log list \<times> (js_error + 'a)"

definition ret :: "'a \<Rightarrow> 'a res" where
  "ret v = ([], Inr v)"

definition raise :: "js_error \<Rightarrow> 'a res" where
  "raise e = ([], Inl e)"

definition bind :: "'a res \<Rightarrow> ('a \<Rightarrow> 'b res) \<Rightarrow> 'b res" where
  "bind m f =
     (case m of
        (l, Inl e) \<Rightarrow> (l, Inl e)
      | (l, Inr v) \<Rightarrow> (case f v of (l', r) \<Rightarrow> (l @ l', r)))"

text \<open>The outcomes of \<open>xs.map(f)\<close>, run from left to right up to the first exception.\<close>

fun collect :: "'a res list \<Rightarrow> 'a list res" where
  "collect [] = ([], Inr [])"
| "collect ((l, Inl e) # rs) = (l, Inl e)"
| "collect ((l, Inr v) # rs) =
     (case collect rs of
        (l', Inl e) \<Rightarrow> (l @ l', Inl e)
      | (l', Inr vs) \<Rightarrow> (l @ l', Inr (v # vs)))"

text \<open>A value inside a template literal, and inside \<open>join\<close> (where \<open>undefined\<close> is empty).\<close>

definition template :: "jsval \<Rightarrow> string" where
  "template v = (case v of Str s \<Rightarrow> s | Undefined \<Rightarrow> ''undefined'')"

definition join_vals :: "string \<Rightarrow> jsval list \<Rightarrow> string" where
  "join_vals sep vs = join sep (map (\<lambda>v. case v of Str s \<Rightarrow> s | Undefined \<Rightarrow> []) vs)"

definition quoted :: "string \<Rightarrow> string" where
  "quoted s = CHR 0x22 # s @ [CHR 0x22]"

text \<open>\<open>propPath.map((key) => `["${key}"]`).join("")\<close>.\<close>

definition accessKeys :: "string list \<Rightarrow> string" where
  "accessKeys propPath = concat (map (\<lambda>key. ''['' @ quoted key @ '']'') propPath)"

definition generatePrimitive :: "config \<Rightarrow> string \<Rightarrow> string \<Rightarrow> generationContext \<Rightarrow> jsval res" where
  "generatePrimitive cfg v path ctx =
     (case getFakerGenerator cfg v path ctx of (l, gen) \<Rightarrow> (l, Inr (Str gen)))"

definition constantText :: "cval \<Rightarrow> string" where
  "constantText v =
     (case v of CStr s \<Rightarrow> quoted s | CNum t \<Rightarrow> t | CBool b \<Rightarrow> (if b then ''true'' else ''false''))"

text \<open>
  \<open>typeof prop.value === "string" ? `"${prop.value}"` : prop.value.toString()\<close>. The
  callers cast any node to a constant, so the field \<open>value\<close> may hold a string, a
  constant, an array of objects, an object, or be missing (then \<open>toString\<close> raises).
\<close>

definition valueText :: "node \<Rightarrow> js_error + string" where
  "valueText prop =
     (case prop of
        PrimitiveP a v \<Rightarrow> Inr (quoted v)
      | ConstantP a v \<Rightarrow> Inr (constantText v)
      | ReferenceP a v \<Rightarrow> Inr (quoted v)
      | UnionP a vs \<Rightarrow> Inr (join '','' (map (\<lambda>_. ''[object Object]'') vs))
      | IntersectionP a vs \<Rightarrow> Inr (join '','' (map (\<lambda>_. ''[object Object]'') vs))
      | ArrayP a vs \<Rightarrow> Inr (join '','' (map (\<lambda>_. ''[object Object]'') vs))
      | TupleP a vs \<Rightarrow> Inr (join '','' (map (\<lambda>_. ''[object Object]'') vs))
      | ObjectP a vs \<Rightarrow> Inr (join '','' (map (\<lambda>_. ''[object Object]'') vs))
      | RecordP a vs \<Rightarrow> Inr (join '','' (map (\<lambda>_. ''[object Object]'') vs))
      | PromiseP a vs \<Rightarrow> Inr (join '','' (map (\<lambda>_. ''[object Object]'') vs))
      | FunctionP a v \<Rightarrow> Inr ''[object Object]''
      | TypeOperatorP a ope v \<Rightarrow> Inr ''[object Object]''
      | MappedP a p c v \<Rightarrow> Inr ''[object Object]''
      | IndexSignatureP a k v \<Rightarrow> Inl TypeError
      | ConditionalP a c e t f \<Rightarrow> Inl TypeError
      | EnumP a vs \<Rightarrow> Inl TypeError)"

definition generateConstantValue :: "node \<Rightarrow> string \<Rightarrow> bool \<Rightarrow> bool \<Rightarrow> jsval res" where
  "generateConstantValue prop path includeTypes isUnionOrEnum =
     (case valueText prop of
        Inl e \<Rightarrow> raise e
      | Inr val \<Rightarrow>
          (case split_dot path of
             entity # propPath \<Rightarrow>
               if includeTypes \<and> isUnionOrEnum \<and> entity \<noteq> [] \<and> propPath \<noteq> []
               then ret (Str (val @ '' as '' @ entity @ accessKeys propPath))
               else if includeTypes then ret (Str (val @ '' as const'')) else ret (Str val)
           | [] \<Rightarrow> if includeTypes then ret (Str (val @ '' as const'')) else ret (Str val)))"

definition generateRecordValue :: "string \<Rightarrow> bool \<Rightarrow> jsval res" where
  "generateRecordValue path includeTypes =
     ([Warn (''Encountered Record type at path: '' @ path @ '', returning empty object {}'')],
      Inr (Str (case split_dot path of
                  entity # propPath \<Rightarrow>
                    if includeTypes \<and> entity \<noteq> [] \<and> propPath \<noteq> []
                    then ''{} as '' @ entity @ accessKeys propPath else ''{}''
                | [] \<Rightarrow> ''{}'')))"

text \<open>
  The call of the target factory for a reference flagged \<open>recursiveEdge\<close> inside an
  entity with recursion: the options are passed when the target is known to accept them.
  \<open>guarded\<close> is the variant \<open>(typeName && typesWithOptions.has(typeName)) || ...\<close>.
\<close>

definition optionsCall :: "string \<Rightarrow> string" where
  "optionsCall typeName = ''Mock'' @ typeName @ ''({}, { depth: depth + 1, maxDepth })''"

definition plainCall :: "string \<Rightarrow> string" where
  "plainCall typeName = ''Mock'' @ typeName @ ''()''"

definition passOpts :: "bool \<Rightarrow> string \<Rightarrow> generationContext \<Rightarrow> bool" where
  "passOpts guarded typeName ctx =
     (((guarded \<longrightarrow> typeName \<noteq> []) \<and> typeName \<in> set (typesWithOptions ctx))
      \<or> entityName ctx = Some typeName)"

definition recursiveCall :: "attrs \<Rightarrow> string \<Rightarrow> generationContext \<Rightarrow> string" where
  "recursiveCall a typeName ctx =
     (if recursiveEdge a \<and> entityHasRecursion ctx
      then (if passOpts True typeName ctx then optionsCall typeName else plainCall typeName)
      else plainCall typeName)"

definition generateReferenceValue :: "attrs \<Rightarrow> string \<Rightarrow> generationContext \<Rightarrow> string" where
  "generateReferenceValue a refVal ctx =
     (let typeName = refTypeName refVal
      in if typeName = ''__type'' then ''{}''
         else if typeName \<in> set (genericParamSet ctx) then ''mock'' @ typeName @ ''()''
         else if recursiveEdge a \<and> entityHasRecursion ctx \<and> passOpts False typeName ctx
              then optionsCall typeName
              else plainCall typeName)"

text \<open>The branch of \<open>generateArrayValue\<close> for an element that is a reference.\<close>

definition arrayOfReference :: "attrs \<Rightarrow> string \<Rightarrow> string \<Rightarrow> bool \<Rightarrow> generationContext \<Rightarrow> string" where
  "arrayOfReference a refVal path includeTypes ctx =
     (let typeName = refTypeName refVal
      in if typeName = ''__type'' then
           (if includeTypes then
              (case split_dot path of
                 entity # propPath \<Rightarrow>
                   ''[] as '' @ entity
                   @ (if propPath \<noteq> [] then ''['' @ [CHR 0x22] @ join ([CHR 0x22] @ '']['' @ [CHR 0x22]) propPath @ [CHR 0x22] @ '']'' else [])
               | [] \<Rightarrow> ''[] as undefined'')
            else ''[]'')
         else if recursiveEdge a \<and> entityHasRecursion ctx then
           (let inner = (if passOpts True typeName ctx then optionsCall typeName
                         else plainCall typeName)
            in if includeTypes
               then ''depth >= maxDepth ? ([] as '' @ typeName @ ''[]) : faker.helpers.multiple(() => '' @ inner @ '')''
               else ''depth >= maxDepth ? [] : faker.helpers.multiple(() => '' @ inner @ '')'')
         else if typeName \<noteq> [] \<and> typeName \<in> set (genericParamSet ctx)
              then ''faker.helpers.multiple(() => mock'' @ typeName @ ''())''
              else ''faker.helpers.multiple(() => Mock'' @ typeName @ ''())'')"

definition wrapBrace :: "string \<Rightarrow> string" where
  "wrapBrace v = (if startsWith (trim v) ''{'' then ''('' @ v @ '')'' else v)"

definition is_reference :: "node \<Rightarrow> bool" where
  "is_reference v = (case v of ReferenceP _ _ \<Rightarrow> True | _ \<Rightarrow> False)"

definition is_string_literal :: "node \<Rightarrow> bool" where
  "is_string_literal v = (case v of ConstantP _ (CStr _) \<Rightarrow> True | _ \<Rightarrow> False)"

definition literal_text :: "node \<Rightarrow> string" where
  "literal_text v = (case v of ConstantP _ (CStr s) \<Rightarrow> s | _ \<Rightarrow> [])"

definition unionRefCall :: "generationContext \<Rightarrow> node \<Rightarrow> string" where
  "unionRefCall ctx val =
     (case val of ReferenceP a valStr \<Rightarrow> recursiveCall a (refTypeName valStr) ctx | _ \<Rightarrow> [])"

text \<open>The literals of a union of string constants, with the typed assertion of the source.\<close>

definition unionLiterals :: "node list \<Rightarrow> string \<Rightarrow> string" where
  "unionLiterals vs path =
     (case split_dot path of
        entity # propPath \<Rightarrow>
          (let keys = (if propPath \<noteq> [] then ''['' @ [CHR 0x22] @ join ('']['' @ [CHR 0x22]) propPath @ [CHR 0x22] @ '']'' else [])
           in join '', '' (map (\<lambda>val. quoted (literal_text val) @ '' as '' @ entity @ keys) vs))
      | [] \<Rightarrow> [])"

definition single_reference :: "node list \<Rightarrow> (attrs \<times> string) option" where
  "single_reference vs =
     (case vs of
        [v] \<Rightarrow> (case v of ReferenceP a refVal \<Rightarrow> Some (a, refVal) | _ \<Rightarrow> None)
      | _ \<Rightarrow> None)"

text \<open>One member of an intersection, after its value has been synthesized.\<close>

definition intersectionPart :: "node \<Rightarrow> jsval \<Rightarrow> jsval res" where
  "intersectionPart item v =
     (if type_of item = ''reference'' then ret (Str (''...'' @ template v))
      else if type_of item = ''object'' \<or> type_of item = ''record'' then
        (case v of
           Undefined \<Rightarrow> raise TypeError
         | Str s \<Rightarrow>
             if s \<noteq> [] \<and> hd s = CHR ''{'' \<and> last s = CHR ''}'' then ret (Str (butlast (tl s)))
             else ret (Str s))
      else ret v)"

definition generateFunctionValue :: "jsval res" where
  "generateFunctionValue =
     ([Warn ''Encountered function type in AST, omitting from mock output.''], Inr Undefined)"

text \<open>The last steps of \<open>generateProperty\<close>, once the value is there.\<close>

definition propertyText :: "node \<Rightarrow> string \<Rightarrow> string \<Rightarrow> bool \<Rightarrow> jsval \<Rightarrow> jsval res" where
  "propertyText prop nm path includeTypes value0 =
     (let val =
        (case value0 of
           Undefined \<Rightarrow> Undefined
         | Str v \<Rightarrow>
             if includeTypes \<and> trim v = ''{}'' then
               (case split_dot (path @ ''.'' @ nm) of
                  entity # parts \<Rightarrow>
                    if entity \<noteq> [] \<and> parts \<noteq> []
                    then Str (''{} as '' @ entity @ accessKeys parts) else Str v
                | [] \<Rightarrow> Str v)
             else Str v)
      in if optional (attrs_of prop) then
           (case val of
              Undefined \<Rightarrow> raise TypeError
            | Str v \<Rightarrow> ret (Str (quoted nm @ '': faker.helpers.maybe(() => '' @ wrapBrace v @ '')'')))
         else ret (Str (quoted nm @ '': '' @ template val)))"

lemma node_size_in_list: "x \<in> set xs \<Longrightarrow> size (x::node) < size_list size xs"
  by (induction xs) auto

function generateValue :: "config \<Rightarrow> node \<Rightarrow> string \<Rightarrow> bool \<Rightarrow> generationContext \<Rightarrow> jsval res"
and generateArrayValue :: "config \<Rightarrow> node list \<Rightarrow> string \<Rightarrow> bool \<Rightarrow> generationContext \<Rightarrow> jsval res"
and generateUnionValue :: "config \<Rightarrow> node list \<Rightarrow> string \<Rightarrow> bool \<Rightarrow> generationContext \<Rightarrow> jsval res"
and generateIntersectionValue :: "config \<Rightarrow> node list \<Rightarrow> string \<Rightarrow> bool \<Rightarrow> generationContext \<Rightarrow> jsval res"
and generateObjectValue :: "config \<Rightarrow> node list \<Rightarrow> string \<Rightarrow> bool \<Rightarrow> generationContext \<Rightarrow> jsval res"
and generateProperty :: "config \<Rightarrow> node \<Rightarrow> string \<Rightarrow> string \<Rightarrow> bool \<Rightarrow> generationContext \<Rightarrow> jsval res"
where
  "generateValue cfg prop path includeTypes ctx =
     (case prop of
        PrimitiveP a v \<Rightarrow> generatePrimitive cfg v path ctx
      | ConstantP a v \<Rightarrow> generateConstantValue prop path includeTypes False
      | ReferenceP a v \<Rightarrow> ret (Str (generateReferenceValue a v ctx))
      | UnionP a vs \<Rightarrow> generateUnionValue cfg vs path includeTypes ctx
      | IntersectionP a vs \<Rightarrow> generateIntersectionValue cfg vs path includeTypes ctx
      | RecordP a vs \<Rightarrow> generateRecordValue path includeTypes
      | ArrayP a vs \<Rightarrow> generateArrayValue cfg vs path includeTypes ctx
      | ObjectP a vs \<Rightarrow> generateObjectValue cfg vs path includeTypes ctx
      | FunctionP a v \<Rightarrow> generateFunctionValue
      | _ \<Rightarrow>
          ([Warn (''Encountered unknown AST property type: '' @ type_of prop @ '' at path: '' @ path)],
           Inr (Str (quoted (''/* TODO '' @ type_of prop @ '' */'')))))"
| "generateArrayValue cfg vs path includeTypes ctx =
     (case vs of
        [] \<Rightarrow> ret (Str ''[]'')
      | type # _ \<Rightarrow>
          (case type of
             ReferenceP a refVal \<Rightarrow> ret (Str (arrayOfReference a refVal path includeTypes ctx))
           | _ \<Rightarrow>
               bind (generateValue cfg type path includeTypes ctx)
                 (\<lambda>v. case v of
                         Undefined \<Rightarrow> raise TypeError
                       | Str s \<Rightarrow> ret (Str (''faker.helpers.multiple(() => '' @ wrapBrace s @ '')'')))))"
| "generateUnionValue cfg vs path includeTypes ctx =
     (if vs = [] then ret (Str ''undefined'')
      else if list_all is_reference vs
      then ret (Str (''faker.helpers.arrayElement(['' @ join '', '' (map (unionRefCall ctx) vs) @ ''])''))
      else if list_all is_string_literal vs \<and> length vs = 1
      then ret (Str (quoted (literal_text (hd vs))))
      else if list_all is_string_literal vs \<and> includeTypes
      then ret (Str (''faker.helpers.arrayElement(['' @ unionLiterals vs path @ ''])''))
      else bind (collect (map (\<lambda>val. generateValue cfg val path includeTypes ctx) vs))
             (\<lambda>vals. ret (Str (''faker.helpers.arrayElement(['' @ join_vals '', '' vals @ ''])''))))"
| "generateIntersectionValue cfg vs path includeTypes ctx =
     bind (collect (map (\<lambda>item. bind (generateValue cfg item path includeTypes ctx)
                                   (intersectionPart item)) vs))
       (\<lambda>parts. ret (Str (''{ '' @ join_vals '', '' parts @ '' }'')))"
| "generateObjectValue cfg vs path includeTypes ctx =
     (case single_reference vs of
        Some (a, refVal) \<Rightarrow> ret (Str (recursiveCall a (refTypeName refVal) ctx))
      | None \<Rightarrow>
          bind (collect (map (\<lambda>item. generateProperty cfg item (pname (attrs_of item)) path
                                      includeTypes ctx) vs))
            (\<lambda>props. ret (Str (''{ '' @ join_vals '', '' props @ '' }''))))"
| "generateProperty cfg prop nm path includeTypes ctx =
     bind (generateValue cfg prop (path @ ''.'' @ nm) includeTypes ctx)
       (propertyText prop nm path includeTypes)"
  by pat_completeness auto

termination
  apply (relation "measure (case_sum
           (case_sum (\<lambda>(cfg, prop, r). 2 * size prop)
              (case_sum (\<lambda>(cfg, vs, r). 2 * size_list size vs + 1)
                        (\<lambda>(cfg, vs, r). 2 * size_list size vs + 1)))
           (case_sum (\<lambda>(cfg, vs, r). 2 * size_list size vs + 1)
              (case_sum (\<lambda>(cfg, vs, r). 2 * size_list size vs + 1)
                        (\<lambda>(cfg, prop, r). 2 * size prop + 1))))")
  apply (auto dest: node_size_in_list)
  done

section \<open>Regular expressions of the emission code\<close>

text \<open>
  The fragment of regular expressions that \<open>stripUnusedOptionsFromText\<close> uses: literals,
  character classes, greedy and lazy stars over a class, greedy options, sequences and
  capture groups. \<open>rx_run\<close> lists the ways to match at the start of a text, in the
  order in which a backtracking matcher tries them, each with the captures and the rest
  of the text.
\<close>

datatype rx =
    RLit string
  | RCls "char \<Rightarrow> bool"
  | RStar "char \<Rightarrow> bool"
  | RStarLazy "char \<Rightarrow> bool"
  | ROpt rx
  | RSeq rx rx
  | RGroup nat rx

type_synonym captures = "(nat \<times> string) list"

fun rx_run :: "rx \<Rightarrow> captures \<times> string \<Rightarrow> (captures \<times> string) list" where
  "rx_run (RLit w) (caps, s) = (if startsWith s w then [(caps, drop (length w) s)] else [])"
| "rx_run (RCls p) (caps, s) = (case s of [] \<Rightarrow> [] | c # cs \<Rightarrow> if p c then [(caps, cs)] else [])"
| "rx_run (RStar p) (caps, s) =
     map (\<lambda>k. (caps, drop k s)) (rev [0 ..< Suc (length (takeWhile p s))])"
| "rx_run (RStarLazy p) (caps, s) =
     map (\<lambda>k. (caps, drop k s)) [0 ..< Suc (length (takeWhile p s))]"
| "rx_run (ROpt r) (caps, s) = rx_run r (caps, s) @ [(caps, s)]"
| "rx_run (RSeq r1 r2) (caps, s) = concat (map (rx_run r2) (rx_run r1 (caps, s)))"
| "rx_run (RGroup k r) (caps, s) =
     map (\<lambda>(caps', rest). ((k, take (length s - length rest) s) # caps', rest))
       (rx_run r (caps, s))"

fun rx_seq :: "rx list \<Rightarrow> rx" where
  "rx_seq [] = RLit []"
| "rx_seq [r] = r"
| "rx_seq (r # rs) = RSeq r (rx_seq rs)"

text \<open>The capture of group \<open>k\<close>: the innermost binding made last.\<close>

definition capture :: "captures \<Rightarrow> nat \<Rightarrow> string" where
  "capture caps k = (case map_of caps k of Some s \<Rightarrow> s | None \<Rightarrow> [])"

text \<open>
  \<open>text.replace(re, f)\<close> with the flag \<open>g\<close>: the leftmost match is replaced and the
  search goes on behind it; after an empty match one character is copied.
\<close>

function replace_all :: "rx \<Rightarrow> (captures \<Rightarrow> string) \<Rightarrow> string \<Rightarrow> string" where
  "replace_all r f s =
     (case rx_run r ([], s) of
        [] \<Rightarrow> (case s of [] \<Rightarrow> [] | c # cs \<Rightarrow> c # replace_all r f cs)
      | (caps, rest) # _ \<Rightarrow>
          if length rest < length s then f caps @ replace_all r f rest
          else (case s of [] \<Rightarrow> f caps | c # cs \<Rightarrow> f caps @ c # replace_all r f cs))"
  by pat_completeness auto
termination
  by (relation "measure (\<lambda>(r, f, s). length s)") auto

text \<open>\<open>\bw\b\<close> somewhere in the text, for a word \<open>w\<close> of word characters.\<close>

fun has_word_from :: "bool \<Rightarrow> string \<Rightarrow> string \<Rightarrow> bool" where
  "has_word_from prev_word w [] = False"
| "has_word_from prev_word w (c # cs) =
     ((\<not> prev_word \<and> startsWith (c # cs) w
        \<and> (case drop (length w) (c # cs) of [] \<Rightarrow> True | d # _ \<Rightarrow> \<not> is_word d))
      \<or> has_word_from (is_word c) w cs)"

definition has_word :: "string \<Rightarrow> string \<Rightarrow> bool" where
  "has_word w text = has_word_from False w text"

text \<open>
  \<open>/function (Mock[A-Za-z0-9_]+)\(([^)]*?),?\s*__options\s*(?:[:=][^,)]*)?(,?\s*)?\)/g\<close>
\<close>

definition rx_signature :: rx where
  "rx_signature = rx_seq
     [RLit ''function '',
      RGroup 1 (rx_seq [RLit ''Mock'', RCls is_word, RStar is_word]),
      RLit ''('',
      RGroup 2 (RStarLazy (\<lambda>c. c \<noteq> CHR '')'')),
      ROpt (RLit '',''), RStar is_space, RLit ''__options'', RStar is_space,
      ROpt (RSeq (RCls (\<lambda>c. c = CHR '':'' \<or> c = CHR ''='')) (RStar (\<lambda>c. c \<noteq> CHR '','' \<and> c \<noteq> CHR '')''))),
      ROpt (RGroup 3 (RSeq (ROpt (RLit '','')) (RStar is_space))),
      RLit '')'']"

text \<open>\<open>args.replace(/,\s*$/, "")\<close>.\<close>

fun strip_trailing_comma :: "string \<Rightarrow> string" where
  "strip_trailing_comma [] = []"
| "strip_trailing_comma (c # cs) =
     (if c = CHR '','' \<and> list_all is_space cs then [] else c # strip_trailing_comma cs)"

definition signature_replacement :: "captures \<Rightarrow> string" where
  "signature_replacement caps =
     ''function '' @ capture caps 1 @ ''('' @ strip_trailing_comma (capture caps 2) @ '')''"

text \<open>
  \<open>/\n?\s*const\s*\{\s*depth\s*=\s*0,\s*maxDepth\s*=\s*2\s*\}\s*=\s*__options;?/g\<close>
\<close>

definition rx_destructuring :: rx where
  "rx_destructuring = rx_seq
     [ROpt (RLit [CHR 0x0A]), RStar is_space, RLit ''const'', RStar is_space, RLit ''{'',
      RStar is_space, RLit ''depth'', RStar is_space, RLit ''='', RStar is_space, RLit ''0,'',
      RStar is_space, RLit ''maxDepth'', RStar is_space, RLit ''='', RStar is_space, RLit ''2'',
      RStar is_space, RLit ''}'', RStar is_space, RLit ''='', RStar is_space, RLit ''__options'',
      ROpt (RLit '';'')]"

text \<open>\<open>stripUnusedOptionsFromText\<close>, applied to the joined text of all factories.\<close>

definition stripUnusedOptionsFromText :: "string \<Rightarrow> string" where
  "stripUnusedOptionsFromText text =
     (if has_word ''depth'' text \<or> has_word ''maxDepth'' text \<or> str_includes text ''__options''
      then text
      else replace_all rx_destructuring (\<lambda>_. [])
             (replace_all rx_signature signature_replacement text))"

section \<open>Factory emission (generation.ts, generate)\<close>

text \<open>
  The body of \<open>generate\<close> between the pre-scan and the final text: one factory per
  selected entity, joined by newlines, then \<open>stripUnusedOptionsFromText\<close>. The import
  statements that \<open>generate\<close> puts in front depend on the file system and are left out.
\<close>

definition optionsParam :: "bool \<Rightarrow> string" where
  "optionsParam typed =
     (if typed then ''__options: { depth?: number; maxDepth?: number } = {}''
      else ''__options = {}'')"

definition destructuring :: string where
  "destructuring = ''  const { depth = 0, maxDepth = 2 } = __options;''"

definition genericTypes :: "entity \<Rightarrow> string" where
  "genericTypes item =
     (if generics item \<noteq> [] then ''<'' @ join '', '' (generics item) @ ''>'' else [])"

definition overridesType :: "bool \<Rightarrow> entity \<Rightarrow> string" where
  "overridesType includeTypes item =
     (if includeTypes then '': Partial<'' @ name item @ genericTypes item @ ''>'' else [])"

definition resultType :: "bool \<Rightarrow> entity \<Rightarrow> string" where
  "resultType includeTypes item =
     (if includeTypes then '': '' @ name item @ genericTypes item else [])"

definition exportKeyword :: "bool \<Rightarrow> string" where
  "exportKeyword useExport = (if useExport then ''export '' else [])"

definition mkContext :: "entity list \<Rightarrow> entity \<Rightarrow> generationContext" where
  "mkContext data item =
     \<lparr>entityName = Some (name item), entityHasRecursion = hasRecursion item,
      genericParamSet = generics item,
      typesWithOptions = map name (filter hasRecursion data)\<rparr>"

definition emitAlias :: "bool \<Rightarrow> bool \<Rightarrow> entity \<Rightarrow> string list \<Rightarrow> string list" where
  "emitAlias includeTypes useExport item ents =
     (let vals = join '', '' (map (\<lambda>e. if hasRecursion item then optionsCall (refTypeName e)
                                         else plainCall (refTypeName e)) ents);
          head = exportKeyword useExport @ ''function Mock'' @ name item @ ''(overrides''
                 @ overridesType includeTypes item @ '' = {}''
      in (if hasRecursion item
          then [head @ '', '' @ optionsParam includeTypes @ '')'' @ resultType includeTypes item @ '' {'',
                destructuring]
          else [head @ '')'' @ resultType includeTypes item @ '' {''])
         @ [''  const result = faker.helpers.arrayElement(['',
            ''    faker.helpers.arrayElement(['' @ vals @ ''])'',
            ''  ]);'',
            ''  return { ...result, ...overrides }'',
            ''}'',
            []])"

definition unionMember :: "config \<Rightarrow> bool \<Rightarrow> generationContext \<Rightarrow> entity \<Rightarrow> node \<Rightarrow> jsval res" where
  "unionMember cfg includeTypes ctx item val =
     (case val of
        ReferenceP a v \<Rightarrow>
          if recursiveEdge a \<and> entityHasRecursion ctx
          then ret (Str (''Mock'' @ v @ ''({}, { depth: depth + 1, maxDepth })''))
          else ret (Str (''Mock'' @ v @ ''()''))
      | IntersectionP a vs \<Rightarrow> generateIntersectionValue cfg vs (name item) includeTypes ctx
      | _ \<Rightarrow> ret (Str ''undefined''))"

definition emitUnion :: "config \<Rightarrow> bool \<Rightarrow> bool \<Rightarrow> generationContext \<Rightarrow> entity \<Rightarrow> node list \<Rightarrow> string list res" where
  "emitUnion cfg includeTypes useExport ctx item vs =
     (let head = exportKeyword useExport @ ''function Mock'' @ name item @ ''(overrides''
                 @ overridesType includeTypes item
      in if list_all (\<lambda>v. type_of v = ''reference'' \<or> type_of v = ''intersection'') vs
         then bind (collect (map (unionMember cfg includeTypes ctx item) vs))
                (\<lambda>vals.
                   ret ((if hasRecursion item
                         then [head @ '', '' @ optionsParam includeTypes @ '')''
                                 @ resultType includeTypes item @ '' {'',
                               destructuring]
                         else [head @ '')'' @ resultType includeTypes item @ '' {''])
                        @ [''  return overrides ?? faker.helpers.arrayElement(['' @ join_vals '', '' vals @ '']);'',
                           ''}'',
                           []]))
         else bind (collect (map (\<lambda>v. generateConstantValue v (name item) includeTypes True) vs))
                (\<lambda>vals.
                   ret [head @ '')'' @ resultType includeTypes item @ '' {'',
                        ''  return overrides ?? faker.helpers.arrayElement(['' @ join_vals '', '' vals @ '']);'',
                        ''}'',
                        []]))"

text \<open>\<open>extractBaseName\<close> of the instance case and \<open>extractTypeNameFromImportish\<close>.\<close>

definition extractTypeNameFromImportish :: "string \<Rightarrow> string" where
  "extractTypeNameFromImportish e =
     (case match_import e of
        Some n \<Rightarrow> n
      | None \<Rightarrow> (case match_dot_word_end e of Some n \<Rightarrow> n | None \<Rightarrow> e))"

definition extractBaseName :: "string \<Rightarrow> string" where
  "extractBaseName e = (if e = [] then [] else extractTypeNameFromImportish e)"

text \<open>\<open>expr.match(/<([^>]+)>/)\<close>, first capture group of the leftmost match.\<close>

fun match_angle :: "string \<Rightarrow> string option" where
  "match_angle [] = None"
| "match_angle (c # cs) =
     (if c = CHR ''<'' \<and> takeWhile (\<lambda>d. d \<noteq> CHR ''>'') cs \<noteq> []
         \<and> dropWhile (\<lambda>d. d \<noteq> CHR ''>'') cs \<noteq> []
      then Some (takeWhile (\<lambda>d. d \<noteq> CHR ''>'') cs)
      else match_angle cs)"

fun split_comma :: "string \<Rightarrow> string list" where
  "split_comma [] = [[]]"
| "split_comma (c # cs) =
     (if c = CHR '','' then [] # split_comma cs
      else (case split_comma cs of [] \<Rightarrow> [[c]] | w # ws \<Rightarrow> (c # w) # ws))"

definition extractGenericTypeName :: "string \<Rightarrow> string" where
  "extractGenericTypeName param = (case match_import param of Some n \<Rightarrow> n | None \<Rightarrow> trim param)"

text \<open>One aggregated base property in the composed defaults: a part, or nothing.\<close>

definition inheritDefault :: "config \<Rightarrow> entity \<Rightarrow> generationContext \<Rightarrow> node \<Rightarrow> string option res" where
  "inheritDefault cfg item ctx bp =
     (let dotted = name item @ ''.'' @ pname (attrs_of bp);
          part = (\<lambda>v. ret (Some (quoted (pname (attrs_of bp)) @ '': '' @ template v)))
      in if inferMapping (inferMatchers cfg) dotted = None then ret None
         else (case bp of
                 PrimitiveP a v \<Rightarrow> bind (generatePrimitive cfg v dotted ctx) part
               | ConstantP a v \<Rightarrow> bind (generateConstantValue bp dotted True False) part
               | UnionP a vs \<Rightarrow>
                   if list_all is_string_literal vs
                   then bind (generateUnionValue cfg vs dotted True ctx) part
                   else ret None
               | _ \<Rightarrow> ret None))"

definition emitInherit :: "config \<Rightarrow> bool \<Rightarrow> entity \<Rightarrow> generationContext \<Rightarrow> inherit \<Rightarrow> string res" where
  "emitInherit cfg includeTypes item ctx inh =
     (let baseName = extractBaseName (expr inh)
      in bind (collect (map (inheritDefault cfg item ctx) (iproperties inh)))
           (\<lambda>found.
              let parts = concat (map (\<lambda>p. case p of Some t \<Rightarrow> [t] | None \<Rightarrow> []) found);
                  defaultsObj = (if parts \<noteq> [] then ''{ '' @ join '', '' parts @ '' }'' else [])
              in case match_angle (expr inh) of
                   Some genericParams \<Rightarrow>
                     (let genericTypeNames = map extractGenericTypeName (split_comma genericParams);
                          paramNames = map (\<lambda>t. ''() => Mock'' @ t @ ''()'') genericTypeNames;
                          baseTypeWithArgs = baseName @ ''<'' @ join '', '' genericTypeNames @ ''>'';
                          defaultsArg =
                            (if defaultsObj \<noteq> []
                             then '', '' @ (if includeTypes
                                           then defaultsObj @ '' as Partial<'' @ baseTypeWithArgs @ ''>''
                                           else defaultsObj)
                             else [])
                      in ret (''...Mock'' @ baseName @ ''('' @ join '', '' paramNames @ defaultsArg @ '')''))
                 | None \<Rightarrow>
                     if defaultsObj \<noteq> [] then
                       (if includeTypes
                        then ret (''...Mock'' @ baseName @ ''('' @ defaultsObj @ '' as Partial<'' @ baseName @ ''>)'')
                        else ret (''...Mock'' @ baseName @ ''('' @ defaultsObj @ '')''))
                     else ret (''...Mock'' @ baseName @ ''()'')))"

definition generateMockValue :: "config \<Rightarrow> bool \<Rightarrow> entity \<Rightarrow> generationContext \<Rightarrow> node \<Rightarrow> jsval res" where
  "generateMockValue cfg includeTypes item ctx prop =
     (case prop of
        ReferenceP a v \<Rightarrow>
          if v \<in> set (generics item) then ret (Str (''mock'' @ v @ ''()''))
          else generateValue cfg prop (name item @ ''.'' @ pname (attrs_of prop)) includeTypes ctx
      | _ \<Rightarrow> generateValue cfg prop (name item @ ''.'' @ pname (attrs_of prop)) includeTypes ctx)"

definition instanceProperty :: "config \<Rightarrow> bool \<Rightarrow> entity \<Rightarrow> generationContext \<Rightarrow> node \<Rightarrow> string res" where
  "instanceProperty cfg includeTypes item ctx prop =
     bind (generateMockValue cfg includeTypes item ctx prop)
       (\<lambda>mockValue.
          if optional (attrs_of prop) then
            (case mockValue of
               Undefined \<Rightarrow> raise TypeError
             | Str v \<Rightarrow> ret (''    '' @ quoted (pname (attrs_of prop))
                               @ '': faker.helpers.maybe(() => '' @ wrapBrace v @ '')''))
          else ret (''    '' @ quoted (pname (attrs_of prop)) @ '': '' @ template mockValue))"

definition emitInstance :: "config \<Rightarrow> bool \<Rightarrow> bool \<Rightarrow> string \<Rightarrow> generationContext \<Rightarrow> entity \<Rightarrow> node list \<Rightarrow> inherit list \<Rightarrow> string list res" where
  "emitInstance cfg includeTypes useExport format ctx item props inhs =
     (let genericParams =
            (if generics item \<noteq> []
             then ''<'' @ join '', '' (map (\<lambda>g. g @ '' = any'') (generics item)) @ ''>'' else []);
          mockGenericParams =
            (if generics item \<noteq> []
             then join '', '' (map (\<lambda>g. if includeTypes
                                          then ''mock'' @ g @ '': () => '' @ g @ '' = () => ({} as '' @ g @ '')''
                                          else ''mock'' @ g @ '': () => '' @ g @ '' = () => ({})'')
                                 (generics item)) @ '', ''
             else []);
          head = exportKeyword useExport @ ''function Mock'' @ name item @ genericParams @ ''(''
                 @ mockGenericParams @ ''overrides'' @ overridesType includeTypes item @ '' = {}''
      in bind (collect (map (emitInherit cfg includeTypes item ctx) inhs))
           (\<lambda>inherits.
              bind (collect (map (instanceProperty cfg includeTypes item ctx) props))
                (\<lambda>properties.
                   ret ((if entityHasRecursion ctx
                         then [head @ '', '' @ optionsParam includeTypes @ '')''
                                 @ resultType includeTypes item @ '' {'',
                               destructuring]
                         else [head @ '')'' @ resultType includeTypes item @ '' {''])
                        @ (if instanceKind item = Some ''class'' \<and> format \<noteq> ''js''
                           then [''  const base = {'']
                                @ (if inherits \<noteq> []
                                   then [''    '' @ join ('','' @ [CHR 0x0A] @ ''    '') inherits @ '','']
                                   else [])
                                @ [''    '' @ join ('','' @ [CHR 0x0A] @ ''    '') properties,
                                   ''  };'',
                                   ''  const instance = Object.create('' @ name item @ ''.prototype);'',
                                   ''  Object.assign(instance, base, overrides);'',
                                   (if includeTypes
                                    then ''  return instance as '' @ name item @ genericTypes item
                                    else ''  return instance'')]
                           else [''  const result = {'']
                                @ (if inherits \<noteq> []
                                   then [''    '' @ join ('','' @ [CHR 0x0A] @ ''    '') inherits @ '','']
                                   else [])
                                @ [''    '' @ join ('','' @ [CHR 0x0A] @ ''    '') properties,
                                   ''  };'',
                                   ''  return { ...result, ...overrides }''])
                        @ [''}'', []]))))"

definition emitEntity :: "config \<Rightarrow> entity list \<Rightarrow> bool \<Rightarrow> bool \<Rightarrow> string \<Rightarrow> entity \<Rightarrow> string res" where
  "emitEntity cfg data includeTypes useExport format item =
     (let ctx = mkContext data item;
          ex = exportKeyword useExport;
          rt = resultType includeTypes item;
          nl = [CHR 0x0A]
      in case body item of
           AliasE ents \<Rightarrow> ret (join nl (emitAlias includeTypes useExport item ents))
         | UnionE vs \<Rightarrow>
             bind (emitUnion cfg includeTypes useExport ctx item vs) (\<lambda>out. ret (join nl out))
         | InstanceE props inhs \<Rightarrow>
             bind (emitInstance cfg includeTypes useExport format ctx item props inhs)
               (\<lambda>out. ret (join nl out))
         | PlaceholderE \<Rightarrow>
             ([Warn (''Encountered placeholder type for '' @ name item @ '', returning minimal object.'')],
              Inr (join nl
                [ex @ ''function Mock'' @ name item @ ''(overrides''
                   @ (if includeTypes then '': any'' else []) @ '')'' @ rt @ '' {'',
                 ''  return {'',
                 ''    /* TODO this is a placeholder because the original type or interface could'' @ [CHR 0x27] @ ''t be parsed. */'',
                 ''    ...overrides'',
                 ''  };'',
                 ''}'',
                 []]))
         | ConstantE v \<Rightarrow>
             bind (generateConstantValue v (name item) includeTypes False)
               (\<lambda>val. ret (join nl
                  [ex @ ''function Mock'' @ name item @ ''()'' @ rt @ '' {'',
                   ''  return '' @ template val @ '';'',
                   ''}'',
                   []]))
         | PrimitiveE v \<Rightarrow>
             (case v of
                PrimitiveP a t \<Rightarrow>
                  bind (generatePrimitive cfg t [] ctx)
                    (\<lambda>val. ret (join nl
                       [ex @ ''function Mock'' @ name item @ ''()'' @ rt @ '' {'',
                        ''  return '' @ template val,
                        ''}'',
                        []]))
              | _ \<Rightarrow> raise TypeError)
         | ArrayE v \<Rightarrow>
             (case v of
                ArrayP a vs \<Rightarrow>
                  bind (generateArrayValue cfg vs [] includeTypes ctx)
                    (\<lambda>val. ret (join nl
                       ((if hasRecursion item
                         then [ex @ ''function Mock'' @ name item @ ''(overrides''
                                 @ (if rt \<noteq> [] then ''?'' @ rt else []) @ '', '' @ optionsParam True
                                 @ '')'' @ rt @ '' {'',
                               destructuring]
                         else [ex @ ''function Mock'' @ name item @ ''(overrides''
                                 @ (if rt \<noteq> [] then ''?'' @ rt else []) @ '')'' @ rt @ '' {''])
                        @ [''  const result = '' @ template val,
                           ''  return overrides ?? result;'',
                           ''}'',
                           []])))
              | _ \<Rightarrow> raise TypeError)
         | EnumE vs \<Rightarrow>
             ret (join nl
               [ex @ ''function Mock'' @ name item @ ''()'' @ rt @ '' {'',
                ''  return faker.helpers.arrayElement([''
                  @ join '', '' (map (\<lambda>v. if format = ''js'' then quoted v else name item @ ''.'' @ v) vs)
                  @ '']);'',
                ''}'',
                []]))"

text \<open>
  The text of the factories. \<open>PrimitiveE\<close> and \<open>ArrayE\<close> hold a primitive and an array
  node by their declared types; the model raises on any other node there.
\<close>

definition generateBody :: "config \<Rightarrow> entity list \<Rightarrow> bool \<Rightarrow> bool \<Rightarrow> string \<Rightarrow> string res" where
  "generateBody cfg data includeTypes0 useExport format =
     (let includeTypes = (includeTypes0 \<and> format = ''ts'')
      in bind (collect (map (emitEntity cfg data includeTypes useExport format) (emitted data)))
           (\<lambda>body. ret (stripUnusedOptionsFromText (join [CHR 0x0A] body))))"

section \<open>Reference graph and recursion analysis (analyzer.ts)\<close>

text \<open>
  A \<open>Set<string>\<close> is the list of its members in insertion order; a
  \<open>Map<string, Set<string>>\<close> is the list of its entries in insertion order.
\<close>

definition set_add :: "string \<Rightarrow> string list \<Rightarrow> string list" where
  "set_add x xs = (if x \<in> set xs then xs else xs @ [x])"

type_synonym adjacency = "(string \<times> string list) list"

fun collectRefsFromProp :: "node \<Rightarrow> string list \<Rightarrow> string list" where
  "collectRefsFromProp (ReferenceP a v) acc =
     (if v \<noteq> [] \<and> v \<noteq> ''__type'' then set_add (extractTypeNameFromImportish v) acc else acc)"
| "collectRefsFromProp (UnionP a vs) acc = foldl (\<lambda>acc v. collectRefsFromProp v acc) acc vs"
| "collectRefsFromProp (IntersectionP a vs) acc = foldl (\<lambda>acc v. collectRefsFromProp v acc) acc vs"
| "collectRefsFromProp (ArrayP a vs) acc = foldl (\<lambda>acc v. collectRefsFromProp v acc) acc vs"
| "collectRefsFromProp (TupleP a vs) acc = foldl (\<lambda>acc v. collectRefsFromProp v acc) acc vs"
| "collectRefsFromProp (RecordP a vs) acc = foldl (\<lambda>acc v. collectRefsFromProp v acc) acc vs"
| "collectRefsFromProp (PromiseP a vs) acc = foldl (\<lambda>acc v. collectRefsFromProp v acc) acc vs"
| "collectRefsFromProp (ObjectP a vs) acc = foldl (\<lambda>acc v. collectRefsFromProp v acc) acc vs"
| "collectRefsFromProp (TypeOperatorP a ope v) acc = collectRefsFromProp v acc"
| "collectRefsFromProp (MappedP a p c v) acc = collectRefsFromProp v acc"
| "collectRefsFromProp (ConditionalP a c e t f) acc = collectRefsFromProp t acc"
| "collectRefsFromProp (PrimitiveP a v) acc = acc"
| "collectRefsFromProp (ConstantP a v) acc = acc"
| "collectRefsFromProp (IndexSignatureP a k v) acc = acc"
| "collectRefsFromProp (FunctionP a v) acc = acc"
| "collectRefsFromProp (EnumP a vs) acc = acc"

text \<open>\<open>adj.get(k) || []\<close>, \<open>if (!adj.has(k)) adj.set(k, new Set())\<close>, and a change of one entry.\<close>

definition succs :: "adjacency \<Rightarrow> string \<Rightarrow> string list" where
  "succs adj k = (case map_of adj k of Some s \<Rightarrow> s | None \<Rightarrow> [])"

definition ensure_key :: "string \<Rightarrow> adjacency \<Rightarrow> adjacency" where
  "ensure_key k adj = (if k \<in> fst ` set adj then adj else adj @ [(k, [])])"

definition update_key :: "(string list \<Rightarrow> string list) \<Rightarrow> string \<Rightarrow> adjacency \<Rightarrow> adjacency" where
  "update_key f k adj = map (\<lambda>kv. if fst kv = k then (fst kv, f (snd kv)) else kv) adj"

definition addEdge :: "string \<Rightarrow> string \<Rightarrow> adjacency \<Rightarrow> adjacency" where
  "addEdge src dst adj = update_key (set_add dst) src (ensure_key src adj)"

definition entityStep :: "adjacency \<Rightarrow> entity \<Rightarrow> adjacency" where
  "entityStep adj e =
     (let src = name e; adj1 = ensure_key src adj
      in case body e of
           InstanceE props inhs \<Rightarrow>
             foldl (\<lambda>a b. addEdge src (extractTypeNameFromImportish (expr b)) a)
               (update_key (\<lambda>s. foldl (\<lambda>acc p. collectRefsFromProp p acc) s props) src adj1)
               inhs
         | UnionE vs \<Rightarrow>
             foldl (\<lambda>a v. foldl (\<lambda>a' r. addEdge src r a') a (collectRefsFromProp v [])) adj1 vs
         | AliasE ents \<Rightarrow>
             foldl (\<lambda>a ent. addEdge src (extractTypeNameFromImportish ent) a) adj1 ents
         | ArrayE v \<Rightarrow> foldl (\<lambda>a r. addEdge src r a) adj1 (collectRefsFromProp v [])
         | _ \<Rightarrow> adj1)"

definition buildAdjacency :: "entity list \<Rightarrow> adjacency" where
  "buildAdjacency entities = foldl entityStep [] entities"

text \<open>
  \<open>computeSCC\<close>. The recursion of \<open>strongconnect\<close> is bounded by a counter of nested
  calls: \<open>None\<close> says that the counter ran out, not that the source stops.
\<close>

record tarjan =
  index :: nat
  indices :: "string \<rightharpoonup> nat"
  lowlink :: "string \<rightharpoonup> nat"
  onStack :: "string list"
  stack :: "string list"
  sccs :: "string list list"

definition num :: "(string \<rightharpoonup> nat) \<Rightarrow> string \<Rightarrow> nat" where
  "num m k = (case m k of Some n \<Rightarrow> n | None \<Rightarrow> 0)"

text \<open>
  The \<open>do ... while\<close> loop that pops a component. The top of the stack is the head of
  the list. A popped name that is falsy (the empty string) is not put into the
  component and ends the loop, as an empty stack does.
\<close>

fun popComponent :: "string \<Rightarrow> string list \<Rightarrow> string list \<Rightarrow> string list
                     \<Rightarrow> string list \<times> string list \<times> string list" where
  "popComponent v [] onS acc = ([], onS, acc)"
| "popComponent v (w # rest) onS acc =
     (if w = [] then (rest, onS, acc)
      else if w = v then (rest, removeAll w onS, acc @ [w])
      else popComponent v rest (removeAll w onS) (acc @ [w]))"

definition enter :: "string \<Rightarrow> tarjan \<Rightarrow> tarjan" where
  "enter v st =
     st\<lparr>indices := (indices st)(v \<mapsto> index st), lowlink := (lowlink st)(v \<mapsto> index st),
        index := index st + 1, stack := v # stack st, onStack := set_add v (onStack st)\<rparr>"

definition leave :: "string \<Rightarrow> tarjan \<Rightarrow> tarjan" where
  "leave v st =
     (if lowlink st v = indices st v then
        (case popComponent v (stack st) (onStack st) [] of
           (stk, onS, component) \<Rightarrow> st\<lparr>stack := stk, onStack := onS, sccs := sccs st @ [component]\<rparr>)
      else st)"

fun strongconnect :: "nat \<Rightarrow> adjacency \<Rightarrow> string \<Rightarrow> tarjan \<Rightarrow> tarjan option"
and visitSuccessors :: "nat \<Rightarrow> adjacency \<Rightarrow> string \<Rightarrow> string list \<Rightarrow> tarjan \<Rightarrow> tarjan option" where
  "strongconnect 0 adj v st = None"
| "strongconnect (Suc n) adj v st =
     (case visitSuccessors n adj v (succs adj v) (enter v st) of
        None \<Rightarrow> None
      | Some st' \<Rightarrow> Some (leave v st'))"
| "visitSuccessors n adj v [] st = Some st"
| "visitSuccessors n adj v (w # ws) st =
     (if indices st w = None then
        (case strongconnect n adj w st of
           None \<Rightarrow> None
         | Some st' \<Rightarrow>
             visitSuccessors n adj v ws
               (st'\<lparr>lowlink := (lowlink st')(v \<mapsto> min (num (lowlink st') v) (num (lowlink st') w))\<rparr>))
      else if w \<in> set (onStack st) then
        visitSuccessors n adj v ws
          (st\<lparr>lowlink := (lowlink st)(v \<mapsto> min (num (lowlink st) v) (num (indices st) w))\<rparr>)
      else visitSuccessors n adj v ws st)"

fun visitRoots :: "nat \<Rightarrow> adjacency \<Rightarrow> string list \<Rightarrow> tarjan \<Rightarrow> tarjan option" where
  "visitRoots n adj [] st = Some st"
| "visitRoots n adj (v # vs) st =
     (if indices st v = None then
        (case strongconnect n adj v st of None \<Rightarrow> None | Some st' \<Rightarrow> visitRoots n adj vs st')
      else visitRoots n adj vs st)"

definition computeSCC :: "nat \<Rightarrow> adjacency \<Rightarrow> string list list option" where
  "computeSCC n adj =
     map_option sccs
       (visitRoots n adj (map fst adj)
          \<lparr>index = 0, indices = Map.empty, lowlink = Map.empty, onStack = [], stack = [], sccs = []\<rparr>)"


text \<open>
  \<open>annotateEntityWithRecursion\<close>. Reading \<open>type\<close> of the missing first element of an
  empty array raises a TypeError, which ends the annotation.
\<close>

fun sequence :: "(js_error + 'a) list \<Rightarrow> js_error + 'a list" where
  "sequence [] = Inr []"
| "sequence (Inl e # rs) = Inl e"
| "sequence (Inr v # rs) = (case sequence rs of Inl e \<Rightarrow> Inl e | Inr vs \<Rightarrow> Inr (v # vs))"

definition canLeadToRecursionFrom :: "bool \<Rightarrow> string list \<Rightarrow> (string \<Rightarrow> string list) \<Rightarrow> string \<Rightarrow> bool" where
  "canLeadToRecursionFrom inRecursion targetSet reachableFrom typeName =
     (inRecursion \<and> (typeName \<in> set targetSet
                      \<or> list_ex (\<lambda>t. t \<in> set (reachableFrom typeName)) targetSet))"

definition markRecursive :: "node \<Rightarrow> node" where
  "markRecursive v = set_attrs ((attrs_of v)\<lparr>recursiveEdge := True\<rparr>) v"

definition finishList :: "(node list \<Rightarrow> node) \<Rightarrow> (js_error + node \<times> bool) list \<Rightarrow> js_error + node \<times> bool" where
  "finishList mk rs =
     (case sequence rs of Inl e \<Rightarrow> Inl e | Inr xs \<Rightarrow> Inr (mk (map fst xs), list_ex snd xs))"

definition markProperty :: "js_error + node \<times> bool \<Rightarrow> js_error + node \<times> bool" where
  "markProperty r =
     (case r of
        Inl e \<Rightarrow> Inl e
      | Inr (nv, leads) \<Rightarrow> Inr (if leads then markRecursive nv else nv, leads))"

fun annotatePropValue :: "(string \<Rightarrow> bool) \<Rightarrow> node \<Rightarrow> js_error + node \<times> bool" where
  "annotatePropValue canLead (ReferenceP a v) =
     (let leads = canLead (extractTypeNameFromImportish v)
      in Inr (if leads then ReferenceP (a\<lparr>recursiveEdge := True\<rparr>) v else ReferenceP a v, leads))"
| "annotatePropValue canLead (ArrayP a vs) =
     (case vs of
        [] \<Rightarrow> Inl TypeError
      | x # _ \<Rightarrow>
          (case annotatePropValue canLead x of
             Inl e \<Rightarrow> Inl e
           | Inr (inner, innerLeads) \<Rightarrow> Inr (ArrayP a [inner], innerLeads)))"
| "annotatePropValue canLead (TupleP a vs) = finishList (TupleP a) (map (annotatePropValue canLead) vs)"
| "annotatePropValue canLead (UnionP a vs) = finishList (UnionP a) (map (annotatePropValue canLead) vs)"
| "annotatePropValue canLead (IntersectionP a vs) =
     finishList (IntersectionP a) (map (annotatePropValue canLead) vs)"
| "annotatePropValue canLead (RecordP a vs) = finishList (RecordP a) (map (annotatePropValue canLead) vs)"
| "annotatePropValue canLead (PromiseP a vs) = finishList (PromiseP a) (map (annotatePropValue canLead) vs)"
| "annotatePropValue canLead (ObjectP a vs) =
     finishList (ObjectP a) (map (\<lambda>p. markProperty (annotatePropValue canLead p)) vs)"
| "annotatePropValue canLead (TypeOperatorP a ope v) =
     (case annotatePropValue canLead v of
        Inl e \<Rightarrow> Inl e
      | Inr (nv, l) \<Rightarrow> Inr (TypeOperatorP a ope nv, l))"
| "annotatePropValue canLead (MappedP a p c v) =
     (case annotatePropValue canLead v of
        Inl e \<Rightarrow> Inl e
      | Inr (nv, l) \<Rightarrow> Inr (MappedP a p c nv, l))"
| "annotatePropValue canLead (ConditionalP a c e t f) =
     (case annotatePropValue canLead c of
        Inl err \<Rightarrow> Inl err
      | Inr (t1, l1) \<Rightarrow>
          (case annotatePropValue canLead e of
             Inl err \<Rightarrow> Inl err
           | Inr (t2, l2) \<Rightarrow>
               (case annotatePropValue canLead t of
                  Inl err \<Rightarrow> Inl err
                | Inr (t3, l3) \<Rightarrow>
                    (case annotatePropValue canLead f of
                       Inl err \<Rightarrow> Inl err
                     | Inr (t4, l4) \<Rightarrow>
                         Inr (ConditionalP a t1 t2 t3 t4, l1 \<or> l2 \<or> l3 \<or> l4)))))"
| "annotatePropValue canLead (PrimitiveP a v) = Inr (PrimitiveP a v, False)"
| "annotatePropValue canLead (ConstantP a v) = Inr (ConstantP a v, False)"
| "annotatePropValue canLead (IndexSignatureP a k v) = Inr (IndexSignatureP a k v, False)"
| "annotatePropValue canLead (FunctionP a v) = Inr (FunctionP a v, False)"
| "annotatePropValue canLead (EnumP a vs) = Inr (EnumP a vs, False)"

text \<open>
  \<open>annotateProperty\<close> annotates the property as a value and then sets its own flag; the
  second step is \<open>markProperty\<close>, which the object case applies to each member.
\<close>

definition annotateProperty :: "(string \<Rightarrow> bool) \<Rightarrow> node \<Rightarrow> js_error + node \<times> bool" where
  "annotateProperty canLead p = markProperty (annotatePropValue canLead p)"

definition annotateEntityWithRecursion ::
  "entity \<Rightarrow> adjacency \<Rightarrow> (string \<Rightarrow> string list option) \<Rightarrow> (string \<Rightarrow> string list) \<Rightarrow> js_error + entity" where
  "annotateEntityWithRecursion entity adj nodeToScc reachableFrom =
     (let scc = (case nodeToScc (name entity) of Some s \<Rightarrow> s | None \<Rightarrow> []);
          hasSelfEdge = (name entity \<in> set (succs adj (name entity)));
          inRecursion = (length (remdups scc) > 1 \<or> hasSelfEdge);
          targetSet = (if scc \<noteq> [] then scc else [name entity]);
          canLead = canLeadToRecursionFrom inRecursion targetSet reachableFrom;
          out = entity\<lparr>hasRecursion := inRecursion,
                       cycleGroup := (if inRecursion then Some targetSet else None)\<rparr>
      in case body entity of
           InstanceE props inhs \<Rightarrow>
             (case sequence (map (annotateProperty canLead) props) of
                Inl e \<Rightarrow> Inl e
              | Inr rs \<Rightarrow> Inr (out\<lparr>body := InstanceE (map fst rs) inhs\<rparr>))
         | UnionE vs \<Rightarrow>
             (case sequence (map (annotatePropValue canLead) vs) of
                Inl e \<Rightarrow> Inl e
              | Inr rs \<Rightarrow> Inr (out\<lparr>body := UnionE (map fst rs)\<rparr>))
         | ArrayE v \<Rightarrow>
             (case annotatePropValue canLead v of
                Inl e \<Rightarrow> Inl e
              | Inr (nv, l) \<Rightarrow> Inr (out\<lparr>body := ArrayE nv\<rparr>))
         | _ \<Rightarrow> Inr out)"

text \<open>
  The map \<open>nodeToScc\<close> that \<open>generateMocks\<close> builds from the components: every name of
  a component is mapped to the set of that component, a later component overwriting an
  earlier one.
\<close>

definition nodeToSccOf :: "string list list \<Rightarrow> string \<Rightarrow> string list option" where
  "nodeToSccOf components n = map_option remdups (find (\<lambda>c. n \<in> set c) (rev components))"


section \<open>Inherited properties (typemockr.ts, generateMocks)\<close>

text \<open>
  The entities of the whole project, the annotated entities of the current file, and
  \<open>path.resolve\<close> of the platform. The two lookup maps \<open>fileEntityMap\<close> and
  \<open>entityByName\<close> are filled with \<open>set\<close> in list order, so the last entity of a name is
  the one found.
\<close>

record resolverEnv =
  allEntities :: "entity list"
  astNodes :: "entity list"
  pathResolve :: "string \<Rightarrow> string"

definition lookup_last :: "entity list \<Rightarrow> string \<Rightarrow> entity option" where
  "lookup_last es n = find (\<lambda>e. name e = n) (rev es)"

definition resolveBaseEntity :: "resolverEnv \<Rightarrow> string \<Rightarrow> string option \<Rightarrow> entity option" where
  "resolveBaseEntity env ex loc =
     (let baseName = extractTypeNameFromImportish ex;
          byLocation =
            (case loc of
               None \<Rightarrow> None
             | Some f \<Rightarrow>
                 find (\<lambda>e. name e = baseName
                           \<and> (case efile e of
                                 None \<Rightarrow> False
                               | Some ef \<Rightarrow> ef \<noteq> [] \<and> pathResolve env ef = pathResolve env f))
                      (allEntities env))
      in case byLocation of
           Some e \<Rightarrow> Some e
         | None \<Rightarrow>
             (case lookup_last (astNodes env) baseName of
                Some e \<Rightarrow> Some e
              | None \<Rightarrow> lookup_last (allEntities env) baseName))"

definition properties_of :: "entity \<Rightarrow> node list" where
  "properties_of e = (case body e of InstanceE props inhs \<Rightarrow> props | _ \<Rightarrow> [])"

definition inherits_of :: "entity \<Rightarrow> inherit list" where
  "inherits_of e = (case body e of InstanceE props inhs \<Rightarrow> inhs | _ \<Rightarrow> [])"

definition prop_name :: "node \<Rightarrow> string" where
  "prop_name p = pname (attrs_of p)"

fun push_new :: "node list \<Rightarrow> node list \<Rightarrow> node list" where
  "push_new [] out = out"
| "push_new (p # ps) out =
     push_new ps (if list_ex (\<lambda>op. prop_name op = prop_name p) out then out else out @ [p])"

definition baseNameOf :: "string \<times> string option \<Rightarrow> string" where
  "baseNameOf b = extractTypeNameFromImportish (fst b)"

definition bases_of :: "entity \<Rightarrow> (string \<times> string option) list" where
  "bases_of e = map (\<lambda>b. (expr b, location b)) (inherits_of e)"

definition envNames :: "resolverEnv \<Rightarrow> string set" where
  "envNames env = baseNameOf ` (\<Union>e \<in> set (allEntities env) \<union> set (astNodes env). set (bases_of e))"

text \<open>
  \<open>collectPropsTransitive\<close>. The recursion \<open>walk\<close> of the source visits a base and then
  its bases in a loop; here the bases still to be visited are a list: the bases of the
  entity just visited are put in front of the bases that the callers have yet to loop
  over, which is the order of the calls in the source. The names of the bases come from
  the finitely many entities, and each visited name is new, which is why the walk ends.
\<close>

lemma finite_envNames: "finite (envNames env)"
  by (simp add: envNames_def)

lemma find_mem: "find P xs = Some x \<Longrightarrow> x \<in> set xs"
  by (induction xs) (auto split: if_splits)

lemma lookup_last_mem: "lookup_last es n = Some e \<Longrightarrow> e \<in> set es"
  by (auto simp: lookup_last_def dest: find_mem)

lemma resolveBaseEntity_mem:
  "resolveBaseEntity env ex loc = Some e \<Longrightarrow> e \<in> set (allEntities env) \<union> set (astNodes env)"
  by (auto simp: resolveBaseEntity_def Let_def split: option.splits dest: lookup_last_mem find_mem)

lemma resolved_bases_in_env:
  "resolveBaseEntity env ex loc = Some e \<Longrightarrow> baseNameOf ` set (bases_of e) \<subseteq> envNames env"
  by (drule resolveBaseEntity_mem) (auto simp: envNames_def)

lemma walk_measure_skip:
  "finite U \<Longrightarrow> card ((U \<union> f ` set pending) - S) \<le> card ((U \<union> f ` set (x # pending)) - S)"
  by (rule card_mono) auto

lemma walk_measure_visit:
  assumes "finite U" and "f x \<notin> S" and "N \<subseteq> U"
  shows "card ((U \<union> (N \<union> f ` set pending)) - insert (f x) S)
         < card ((U \<union> f ` set (x # pending)) - S)"
proof (rule psubset_card_mono)
  show "finite ((U \<union> f ` set (x # pending)) - S)" using assms(1) by simp
  show "(U \<union> (N \<union> f ` set pending)) - insert (f x) S \<subset> (U \<union> f ` set (x # pending)) - S"
    using assms(2,3) by auto
qed

function walk :: "resolverEnv \<Rightarrow> (string \<times> string option) list \<Rightarrow> string list \<Rightarrow> node list \<Rightarrow> node list" where
  "walk env [] seen out = out"
| "walk env (b # pending) seen out =
     (if fst b = [] then walk env pending seen out
      else if baseNameOf b \<in> set seen then walk env pending seen out
      else (case resolveBaseEntity env (fst b) (snd b) of
              None \<Rightarrow> walk env pending (baseNameOf b # seen) out
            | Some ent \<Rightarrow>
                walk env (bases_of ent @ pending) (baseNameOf b # seen)
                  (push_new (properties_of ent) out)))"
  by pat_completeness auto
termination
proof (relation "measures
    [\<lambda>(env, pending, seen, out). card ((envNames env \<union> baseNameOf ` set pending) - set seen),
     \<lambda>(env, pending, seen, out). length pending]", goal_cases)
  case 1
  then show ?case by simp
next
  case (2 env b pending seen out)
  then show ?case
    using walk_measure_skip[OF finite_envNames, of env baseNameOf pending "set seen" b] by auto
next
  case (3 env b pending seen out)
  then show ?case
    using walk_measure_skip[OF finite_envNames, of env baseNameOf pending "set seen" b] by auto
next
  case (4 env b pending seen out)
  then show ?case
    using walk_measure_visit[OF finite_envNames, of baseNameOf b "set seen" "{}" env pending] by simp
next
  case (5 env b pending seen out ent)
  then have "baseNameOf ` set (bases_of ent) \<subseteq> envNames env"
    by (auto dest: resolved_bases_in_env)
  with 5 show ?case
    using walk_measure_visit[OF finite_envNames, of baseNameOf b "set seen"
            "baseNameOf ` set (bases_of ent)" env pending]
    by (simp add: image_Un Un_assoc)
qed


declare walk.simps [simp del]

definition collectPropsTransitive :: "resolverEnv \<Rightarrow> string \<Rightarrow> string option \<Rightarrow> node list" where
  "collectPropsTransitive env startExpr startLoc = walk env [(startExpr, startLoc)] [] []"

text \<open>The entities the walk resolves, in the order of the visits.\<close>

function visited :: "resolverEnv \<Rightarrow> (string \<times> string option) list \<Rightarrow> string list \<Rightarrow> entity list" where
  "visited env [] seen = []"
| "visited env (b # pending) seen =
     (if fst b = [] then visited env pending seen
      else if baseNameOf b \<in> set seen then visited env pending seen
      else (case resolveBaseEntity env (fst b) (snd b) of
              None \<Rightarrow> visited env pending (baseNameOf b # seen)
            | Some ent \<Rightarrow> ent # visited env (bases_of ent @ pending) (baseNameOf b # seen)))"
  by pat_completeness auto
termination
proof (relation "measures
    [\<lambda>(env, pending, seen). card ((envNames env \<union> baseNameOf ` set pending) - set seen),
     \<lambda>(env, pending, seen). length pending]", goal_cases)
  case 1
  then show ?case by simp
next
  case (2 env b pending seen)
  then show ?case
    using walk_measure_skip[OF finite_envNames, of env baseNameOf pending "set seen" b] by auto
next
  case (3 env b pending seen)
  then show ?case
    using walk_measure_skip[OF finite_envNames, of env baseNameOf pending "set seen" b] by auto
next
  case (4 env b pending seen)
  then show ?case
    using walk_measure_visit[OF finite_envNames, of baseNameOf b "set seen" "{}" env pending] by simp
next
  case (5 env b pending seen ent)
  then have "baseNameOf ` set (bases_of ent) \<subseteq> envNames env"
    by (auto dest: resolved_bases_in_env)
  with 5 show ?case
    using walk_measure_visit[OF finite_envNames, of baseNameOf b "set seen"
            "baseNameOf ` set (bases_of ent)" env pending]
    by (simp add: image_Un Un_assoc)
qed

declare visited.simps [simp del]

text \<open>The first property of each name, in order.\<close>

fun keep_first :: "node list \<Rightarrow> node list" where
  "keep_first [] = []"
| "keep_first (p # ps) = p # filter (\<lambda>q. prop_name q \<noteq> prop_name p) (keep_first ps)"

definition prim :: "string \<Rightarrow> string \<Rightarrow> node" where
  "prim n t = PrimitiveP \<lparr>recursiveEdge = False, pname = n, optional = False\<rparr> t"

definition base :: "string \<Rightarrow> inherit" where
  "base n = \<lparr>expr = n, location = None, iproperties = []\<rparr>"

definition diamondEnv :: resolverEnv where
  "diamondEnv =
     \<lparr>allEntities =
        [mkEntity ''A'' (InstanceE [prim ''x'' ''string''] []),
         mkEntity ''B'' (InstanceE [prim ''b'' ''string''] [base ''A'']),
         mkEntity ''C'' (InstanceE [prim ''x'' ''number''] [base ''A'']),
         mkEntity ''D'' (InstanceE [prim ''d'' ''string''] [base ''B'', base ''C''])],
      astNodes = [],
      pathResolve = (\<lambda>f. f)\<rparr>"

definition cyclicEnv :: resolverEnv where
  "cyclicEnv =
     \<lparr>allEntities =
        [mkEntity ''A'' (InstanceE [prim ''a'' ''string''] [base ''B'']),
         mkEntity ''B'' (InstanceE [prim ''b'' ''string''] [base ''A''])],
      astNodes = [],
      pathResolve = (\<lambda>f. f)\<rparr>"

definition diamondA :: entity where
  "diamondA = mkEntity ''A'' (InstanceE [prim ''x'' ''string''] [])"

declare replace_all.simps [simp del]

section \<open>Notions used to state the properties\<close>

text \<open>
  What the pre-scan of \<open>generate\<close> has established after a prefix of the data: every
  entity seen has an entry of at least its rank under its name, and every entry is the
  kind of an entity seen under that name.
\<close>

definition bestInv :: "(string \<rightharpoonup> string) \<Rightarrow> entity list \<Rightarrow> bool" where
  "bestInv m data \<longleftrightarrow>
     (\<forall>e \<in> set data. \<exists>k. m (name e) = Some k \<and> precedence (etype e) \<le> precedence k)
   \<and> (\<forall>n k. m n = Some k \<longrightarrow> (\<exists>e \<in> set data. name e = n \<and> etype e = k))"

definition noAttrs :: attrs where
  "noAttrs = \<lparr>recursiveEdge = False, pname = [], optional = False\<rparr>"

definition emptyConfig :: config where
  "emptyConfig = \<lparr>inferMatchers = [], mappingProviderFunc = None\<rparr>"

text \<open>A regular expression that can only match a text containing \<open>w\<close>.\<close>

fun mentions :: "string \<Rightarrow> rx \<Rightarrow> bool" where
  "mentions w (RLit v) = str_includes v w"
| "mentions w (RSeq r1 r2) = (mentions w r1 \<or> mentions w r2)"
| "mentions w (RGroup k r) = mentions w r"
| "mentions w _ = False"

text \<open>
  A pattern table is the object handed to \<open>setMappings\<close>, in declaration order: each
  key with a string (pattern to expression) or with a list (expression to patterns).
  \<open>declared_order\<close> lists its (pattern, expression) pairs as declared. \<open>compiled_order\<close>
  lists them as \<open>setMappings\<close> compiles them: a table whose first value is a list, entry
  by entry; a table whose first value is a string, regrouped by expression, the
  expressions in order of first appearance, each with all of its patterns. Both go
  through \<open>Object.entries\<close>, which lists keys that are array indices first.
  \<open>accepted\<close> says that \<open>setMappings\<close> does not raise on the table, and
  \<open>declaration_ordered\<close> that nothing is moved: no key or expression is an array index,
  and the table is all lists, or all strings with no expression used twice.
\<close>

fun first_seen :: "'a list \<Rightarrow> 'a list" where
  "first_seen [] = []"
| "first_seen (x # xs) = x # filter (\<lambda>y. y \<noteq> x) (first_seen xs)"

definition is_list :: "mval \<Rightarrow> bool" where
  "is_list v = (case v of MList _ \<Rightarrow> True | MStr _ \<Rightarrow> False)"

definition pairs_of :: "(string \<times> mval) list \<Rightarrow> (string \<times> string) list" where
  "pairs_of es = concat (map (\<lambda>kv. case snd kv of MStr g \<Rightarrow> [(fst kv, g)] | MList _ \<Rightarrow> []) es)"

definition flatten :: "(string \<times> mval) list \<Rightarrow> (string \<times> string) list" where
  "flatten es =
     concat (map (\<lambda>kv. case snd kv of MList ps \<Rightarrow> map (\<lambda>p. (p, fst kv)) ps | MStr _ \<Rightarrow> []) es)"

definition declared_order :: "(string \<times> mval) list \<Rightarrow> (string \<times> string) list" where
  "declared_order tbl =
     concat (map (\<lambda>kv. case snd kv of MList ps \<Rightarrow> map (\<lambda>p. (p, fst kv)) ps
                                     | MStr g \<Rightarrow> [(fst kv, g)]) tbl)"

definition patterns_of :: "(string \<times> string) list \<Rightarrow> string \<Rightarrow> string list" where
  "patterns_of tbl g = map fst (filter (\<lambda>pg. snd pg = g) tbl)"

definition groups :: "(string \<times> string) list \<Rightarrow> (string \<times> mval) list" where
  "groups tbl = map (\<lambda>g. (g, MList (patterns_of tbl g))) (first_seen (map snd tbl))"

definition regrouped :: "(string \<times> string) list \<Rightarrow> (string \<times> string) list" where
  "regrouped tbl =
     concat (map (\<lambda>g. map (\<lambda>p. (p, g)) (patterns_of tbl g)) (first_seen (map snd tbl)))"

definition compiled_order :: "(string \<times> mval) list \<Rightarrow> (string \<times> string) list" where
  "compiled_order tbl =
     (case object_entries tbl of
        [] \<Rightarrow> []
      | kv # _ \<Rightarrow>
          if is_list (snd kv) then flatten (object_entries tbl)
          else flatten (object_entries (groups (pairs_of (object_entries tbl)))))"

definition compiles :: "regexp_constructor \<Rightarrow> string \<Rightarrow> bool" where
  "compiles newRegExp p = (case generateRegexp newRegExp p of Inr _ \<Rightarrow> True | Inl _ \<Rightarrow> False)"

definition pattern_matches :: "regexp_constructor \<Rightarrow> string \<Rightarrow> string \<Rightarrow> bool" where
  "pattern_matches newRegExp p path =
     (case generateRegexp newRegExp p of Inr r \<Rightarrow> r path | Inl _ \<Rightarrow> False)"

definition first_match :: "regexp_constructor \<Rightarrow> (string \<times> string) list \<Rightarrow> string \<Rightarrow> string option" where
  "first_match newRegExp order path =
     map_option snd (find (\<lambda>pg. pattern_matches newRegExp (fst pg) path) order)"

definition accepted :: "regexp_constructor \<Rightarrow> (string \<times> mval) list \<Rightarrow> bool" where
  "accepted newRegExp tbl =
     ((case object_entries tbl of
         [] \<Rightarrow> True
       | kv # _ \<Rightarrow>
           if is_list (snd kv) then list_all (\<lambda>kv. is_list (snd kv)) (object_entries tbl)
           else list_all (\<lambda>pg. snd pg \<notin> set object_prototype_keys) (pairs_of (object_entries tbl)))
      \<and> list_all (\<lambda>pg. compiles newRegExp (fst pg)) (compiled_order tbl))"

definition declaration_ordered :: "(string \<times> mval) list \<Rightarrow> bool" where
  "declaration_ordered tbl =
     (list_all (\<lambda>kv. \<not> is_array_index (fst kv)) tbl
      \<and> (list_all (\<lambda>kv. is_list (snd kv)) tbl
         \<or> (list_all (\<lambda>kv. \<not> is_list (snd kv)) tbl
            \<and> distinct (map snd (pairs_of tbl))
            \<and> list_all (\<lambda>pg. \<not> is_array_index (snd pg)) (pairs_of tbl))))"

definition new_shape :: "(string \<times> string) list \<Rightarrow> (string \<times> mval) list" where
  "new_shape tbl = map (\<lambda>pg. (fst pg, MStr (snd pg))) tbl"

definition ctab :: "(string \<times> mval) list" where
  "ctab = [(''*.id'', MStr ''A''), (''*.name'', MStr ''B''), (''User.*'', MStr ''A'')]"

definition legacyTable :: "(string \<times> mval) list" where
  "legacyTable = [(''A'', MList [''*.id'', ''User.*'']), (''B'', MList [''*.name''])]"

definition selfContext :: generationContext where
  "selfContext = \<lparr>entityName = Some ''A'', entityHasRecursion = True, genericParamSet = [],
                   typesWithOptions = [''A'']\<rparr>"



text \<open>
  Positions in a property value. \<open>children\<close> are the nodes below a node into which the
  annotator goes: the first element of an array, the members of the other composites,
  the operand of a type operator, the value of a mapped type, the four parts of a
  conditional. \<open>node_at x pos\<close> follows a list of child indices from \<open>x\<close>.
  \<open>members_flagged x x' pos\<close> says that wherever the path \<open>pos\<close> goes from an object of
  \<open>x\<close> into one of its members, that member carries \<open>recursiveEdge\<close> in \<open>x'\<close>.
\<close>

fun children :: "node \<Rightarrow> node list" where
  "children (ArrayP a vs) = take 1 vs"
| "children (TupleP a vs) = vs"
| "children (UnionP a vs) = vs"
| "children (IntersectionP a vs) = vs"
| "children (RecordP a vs) = vs"
| "children (PromiseP a vs) = vs"
| "children (ObjectP a vs) = vs"
| "children (TypeOperatorP a ope v) = [v]"
| "children (MappedP a p c v) = [v]"
| "children (ConditionalP a c e t f) = [c, e, t, f]"
| "children (PrimitiveP a v) = []"
| "children (ConstantP a v) = []"
| "children (IndexSignatureP a k v) = []"
| "children (FunctionP a v) = []"
| "children (ReferenceP a v) = []"
| "children (EnumP a vs) = []"


definition is_object :: "node \<Rightarrow> bool" where
  "is_object x = (case x of ObjectP _ _ \<Rightarrow> True | _ \<Rightarrow> False)"





definition selfArrayEntity :: entity where
  "selfArrayEntity =
     mkEntity ''E'' (InstanceE [ArrayP (noAttrs\<lparr>pname := ''children''\<rparr>) [ReferenceP noAttrs ''E'']] [])"

definition selfNestedEntity :: entity where
  "selfNestedEntity =
     mkEntity ''E'' (InstanceE [UnionP (noAttrs\<lparr>pname := ''items''\<rparr>)
                                  [ArrayP noAttrs [ReferenceP noAttrs ''E''],
                                   PrimitiveP noAttrs ''string'']] [])"


section \<open>Theorems\<close>

subsection \<open>Emission selection\<close>

lemma kind_of_nonempty: "kind_of b \<noteq> []"
  by (cases b) simp_all

lemma emitted_instance_constant:
  "emitted [mkEntity ''X'' (ConstantE (ConstantP \<lparr>recursiveEdge = False, pname = [], optional = False\<rparr> (CNum ''1''))),
            mkEntity ''X'' (InstanceE [] [])]
   = [mkEntity ''X'' (InstanceE [] [])]"
  by (simp add: emitted_def nameToBestKind_def bestKindStep_def mkEntity_def etype_def precedence_def)

text \<open>
  What the selection does guarantee: an emitted entity has the highest rank among the
  entities of its name, an entity outranked by a namesake is skipped, and every name keeps
  at least one factory.
\<close>

lemma etype_nonempty: "etype e \<noteq> []"
  by (cases "body e") (simp_all add: etype_def)

lemma bestInv_step:
  assumes "bestInv m data"
  shows "bestInv (bestKindStep m item) (data @ [item])"
proof (cases "m (name item)")
  case None
  then have "bestKindStep m item = m(name item \<mapsto> etype item)" by (simp add: bestKindStep_def)
  with assms None show ?thesis
    unfolding bestInv_def by (auto split: if_splits) 
next
  case (Some prev)
  with assms obtain e where e: "e \<in> set data" "name e = name item" "etype e = prev"
    unfolding bestInv_def by blast
  then have ne: "prev \<noteq> []" using etype_nonempty by blast
  show ?thesis
  proof (cases "precedence (etype item) > precedence prev")
    case True
    then have "bestKindStep m item = m(name item \<mapsto> etype item)"
      using Some ne by (simp add: bestKindStep_def)
    with assms Some True show ?thesis
      unfolding bestInv_def by (fastforce split: if_splits)
  next
    case False
    then have "bestKindStep m item = m" using Some ne by (simp add: bestKindStep_def)
    with assms Some False show ?thesis
      unfolding bestInv_def by (fastforce split: if_splits)
  qed
qed

lemma bestInv_nameToBestKind: "bestInv (nameToBestKind data) data"
proof (induction data rule: rev_induct)
  case Nil
  show ?case by (simp add: bestInv_def nameToBestKind_def)
next
  case (snoc x xs)
  then show ?case using bestInv_step [of "nameToBestKind xs" xs x]
    by (simp add: nameToBestKind_def)
qed

lemma emitted_highest_rank:
  "e \<in> set (emitted data) \<Longrightarrow> e' \<in> set data \<Longrightarrow> name e' = name e
   \<Longrightarrow> precedence (etype e') \<le> precedence (etype e)"
  using bestInv_nameToBestKind [of data]
  unfolding bestInv_def emitted_def by fastforce

lemma emitted_lower_rank_skipped:
  "e \<in> set data \<Longrightarrow> e' \<in> set data \<Longrightarrow> name e' = name e
   \<Longrightarrow> precedence (etype e) < precedence (etype e') \<Longrightarrow> e \<notin> set (emitted data)"
  using emitted_highest_rank [of e data e'] by auto

lemma emitted_some_of_each_name:
  "e \<in> set data \<Longrightarrow> \<exists>e' \<in> set (emitted data). name e' = name e"
  using bestInv_nameToBestKind [of data]
  unfolding bestInv_def emitted_def by fastforce

text \<open>
  C7. Two entities of one name and one kind both pass the emission filter: the selection
  keeps every entity whose kind is the best kind of its name, so two interface
  declarations named \<open>X\<close> give two factories \<open>MockX\<close>, not exactly one.
\<close>

theorem emitted_same_kind_duplicates:
  "emitted [mkEntity ''X'' (InstanceE [] []), mkEntity ''X'' (InstanceE [] [])]
   = [mkEntity ''X'' (InstanceE [] []), mkEntity ''X'' (InstanceE [] [])]"
  by (simp add: emitted_def nameToBestKind_def bestKindStep_def mkEntity_def etype_def precedence_def)


subsection \<open>Union values\<close>

text \<open>
  C10. Synthesizing a union value with no members returns the text \<open>undefined\<close>, writes
  nothing to the console and raises nothing, whatever the configuration, path and context.
\<close>

theorem empty_union_is_undefined:
  "generateValue cfg (UnionP a []) path includeTypes ctx = ([], Inr (Str ''undefined''))"
  by (simp add: ret_def)

theorem empty_union_is_undefined_witness:
  "generateValue emptyConfig (UnionP noAttrs []) ''A.u'' True selfContext
   = ([], Inr (Str ''undefined''))"
  using empty_union_is_undefined [of emptyConfig noAttrs "''A.u''" True selfContext] by simp

subsection \<open>Function-typed properties\<close>

text \<open>
  C8. A property of function type is not left out of the factory. For the entity
  \<open>A\<close> with the one property \<open>cb\<close> of function type, the diagnostic is written, and the
  emitted text holds the line \<open>"cb": undefined\<close>.
\<close>

theorem function_property_emitted:
  "generateBody emptyConfig
     [mkEntity ''A'' (InstanceE [FunctionP (noAttrs\<lparr>pname := ''cb''\<rparr>) (PrimitiveP noAttrs ''any'')] [])]
     False False ''ts''
   = ([Warn ''Encountered function type in AST, omitting from mock output.''],
      Inr (join [CHR 0x0A]
            [''function MockA(overrides = {}) {'',
             ''  const result = {'',
             ''        '' @ quoted ''cb'' @ '': undefined'',
             ''  };'',
             ''  return { ...result, ...overrides }'',
             ''}'',
             []]))"
  by code_simp

text \<open>When the property is optional, \<open>trim\<close> is called on \<open>undefined\<close> and the run ends.\<close>

lemma optional_function_property_raises:
  "generateBody emptyConfig
     [mkEntity ''A'' (InstanceE [FunctionP (noAttrs\<lparr>pname := ''cb'', optional := True\<rparr>) (PrimitiveP noAttrs ''any'')] [])]
     False False ''ts''
   = ([Warn ''Encountered function type in AST, omitting from mock output.''], Inl TypeError)"
  by code_simp

text \<open>The same in a nested object, through \<open>generateProperty\<close>.\<close>

lemma generateProperty_function:
  "\<not> optional a \<Longrightarrow>
   generateProperty cfg (FunctionP a v) nm path includeTypes ctx
   = ([Warn ''Encountered function type in AST, omitting from mock output.''],
      Inr (Str (quoted nm @ '': undefined'')))"
  by (simp add: generateFunctionValue_def bind_def propertyText_def ret_def template_def)

subsection \<open>Stripping of unused options\<close>

lemma startsWith_iff: "startsWith s w \<longleftrightarrow> (\<exists>b. s = w @ b)"
  unfolding startsWith_def by (metis append_eq_conv_conj append_take_drop_id)

lemma str_includes_iff: "str_includes s w \<longleftrightarrow> (\<exists>a b. s = a @ w @ b)"
proof (induction s)
  case Nil
  then show ?case by auto
next
  case (Cons c cs)
  have "(\<exists>a b. c # cs = a @ w @ b) \<longleftrightarrow> (\<exists>b. c # cs = w @ b) \<or> (\<exists>a b. cs = a @ w @ b)"
  proof
    assume "\<exists>a b. c # cs = a @ w @ b"
    then obtain a b where ab: "c # cs = a @ w @ b" by blast
    show "(\<exists>b. c # cs = w @ b) \<or> (\<exists>a b. cs = a @ w @ b)"
    proof (cases a)
      case Nil
      with ab show ?thesis by auto
    next
      case (Cons x a')
      with ab have "cs = a' @ w @ b" by simp
      then show ?thesis by blast
    qed
  next
    assume "(\<exists>b. c # cs = w @ b) \<or> (\<exists>a b. cs = a @ w @ b)"
    then show "\<exists>a b. c # cs = a @ w @ b"
    proof
      assume "\<exists>b. c # cs = w @ b"
      then obtain b where "c # cs = [] @ w @ b" by auto
      then show ?thesis by blast
    next
      assume "\<exists>a b. cs = a @ w @ b"
      then obtain a b where "c # cs = (c # a) @ w @ b" by auto
      then show ?thesis by blast
    qed
  qed
  with Cons show ?case by (simp add: startsWith_iff)
qed

lemma str_includes_append:
  "str_includes p w \<or> str_includes q w \<Longrightarrow> str_includes (p @ q) w"
proof (erule disjE)
  assume "str_includes p w"
  then obtain a b where "p = a @ w @ b" by (auto simp: str_includes_iff)
  then have "p @ q = a @ w @ (b @ q)" by simp
  then show ?thesis unfolding str_includes_iff by blast
next
  assume "str_includes q w"
  then obtain a b where "q = a @ w @ b" by (auto simp: str_includes_iff)
  then have "p @ q = (p @ a) @ w @ b" by simp
  then show ?thesis unfolding str_includes_iff by blast
qed

lemma rx_run_consumes:
  "(c', rest) \<in> set (rx_run r (c, s)) \<Longrightarrow> \<exists>pre. s = pre @ rest"
proof (induction r arbitrary: c s c' rest)
  case (RLit w)
  then show ?case by (auto split: if_splits intro: exI[of _ "take (length w) s"])
next
  case (RCls p)
  then show ?case by (auto split: list.splits if_splits)
next
  case (RStar p)
  then obtain k where "rest = drop k s" by auto
  then show ?case by (metis append_take_drop_id)
next
  case (RStarLazy p)
  then obtain k where "rest = drop k s" by auto
  then show ?case by (metis append_take_drop_id)
next
  case (ROpt r)
  then show ?case by auto
next
  case (RSeq r1 r2)
  then obtain c1 s1 where a: "(c1, s1) \<in> set (rx_run r1 (c, s))"
    and b: "(c', rest) \<in> set (rx_run r2 (c1, s1))" by auto
  from RSeq.IH(1)[OF a] RSeq.IH(2)[OF b] show ?case by auto
next
  case (RGroup k r)
  then obtain c0 where "(c0, rest) \<in> set (rx_run r (c, s))" by auto
  from RGroup.IH[OF this] show ?case .
qed

lemma rx_run_mentions:
  "mentions w r \<Longrightarrow> (c', rest) \<in> set (rx_run r (c, s))
   \<Longrightarrow> \<exists>pre. s = pre @ rest \<and> str_includes pre w"
proof (induction r arbitrary: c s c' rest)
  case (RLit v)
  then have "startsWith s v" and r: "rest = drop (length v) s" by (auto split: if_splits)
  then have "s = v @ rest" by (metis append_take_drop_id startsWith_def)
  with RLit show ?case by auto
next
  case (RSeq r1 r2)
  from RSeq.prems(2) obtain c1 s1 where a: "(c1, s1) \<in> set (rx_run r1 (c, s))"
    and b: "(c', rest) \<in> set (rx_run r2 (c1, s1))" by auto
  from rx_run_consumes[OF a] obtain p1 where p1: "s = p1 @ s1" by blast
  from rx_run_consumes[OF b] obtain p2 where p2: "s1 = p2 @ rest" by blast
  from RSeq.prems(1) have "mentions w r1 \<or> mentions w r2" by simp
  then have "str_includes (p1 @ p2) w"
  proof
    assume m: "mentions w r1"
    from RSeq.IH(1)[OF m a] p1 have "str_includes p1 w" by auto
    then show ?thesis by (simp add: str_includes_append)
  next
    assume m: "mentions w r2"
    from RSeq.IH(2)[OF m b] p2 have "str_includes p2 w" by auto
    then show ?thesis by (simp add: str_includes_append)
  qed
  with p1 p2 show ?case by auto
next
  case (RGroup k r)
  then obtain c0 where "(c0, rest) \<in> set (rx_run r (c, s))" by auto
  with RGroup show ?case by auto
qed simp_all

lemma rx_run_no_match:
  assumes "mentions w r" and "\<not> str_includes s w"
  shows "rx_run r (c, s) = []"
proof (rule ccontr)
  assume "rx_run r (c, s) \<noteq> []"
  then obtain c' rest where "(c', rest) \<in> set (rx_run r (c, s))"
    by (cases "rx_run r (c, s)") auto
  from rx_run_mentions[OF assms(1) this] obtain pre where "s = pre @ rest" "str_includes pre w"
    by blast
  then have "str_includes s w" by (simp add: str_includes_append)
  with assms(2) show False by simp
qed

lemma replace_all_no_match:
  "mentions w r \<Longrightarrow> \<not> str_includes s w \<Longrightarrow> replace_all r f s = s"
proof (induction s)
  case Nil
  then show ?case by (subst replace_all.simps) (simp add: rx_run_no_match)
next
  case (Cons c cs)
  then have "\<not> str_includes cs w" by simp
  with Cons show ?case by (subst replace_all.simps) (simp add: rx_run_no_match)
qed

lemma mentions_signature: "mentions ''__options'' rx_signature"
  by (simp add: rx_signature_def startsWith_def)

lemma mentions_destructuring: "mentions ''__options'' rx_destructuring"
  by (simp add: rx_destructuring_def startsWith_def)

lemma stripUnusedOptionsFromText_identity: "stripUnusedOptionsFromText text = text"
  by (simp add: stripUnusedOptionsFromText_def replace_all_no_match[OF mentions_signature]
        replace_all_no_match[OF mentions_destructuring])


text \<open>
  C9. The options parameter and its destructuring line are not stripped. The entity
  \<open>A\<close> is recursive through a promise, which is synthesized as a placeholder, so the
  body of its factory never uses \<open>depth\<close> or \<open>maxDepth\<close>; the emitted text still has the
  parameter \<open>__options\<close> and the destructuring line.
\<close>

theorem dead_options_kept:
  "generateBody emptyConfig
     [(mkEntity ''A'' (InstanceE [PromiseP (noAttrs\<lparr>pname := ''p'', recursiveEdge := True\<rparr>)
                                   [ReferenceP (noAttrs\<lparr>recursiveEdge := True\<rparr>) ''A'']] []))
        \<lparr>hasRecursion := True\<rparr>]
     False False ''ts''
   = ([Warn ''Encountered unknown AST property type: promise at path: A.p''],
      Inr (join [CHR 0x0A]
            [''function MockA(overrides = {}, __options = {}) {'',
             ''  const { depth = 0, maxDepth = 2 } = __options;'',
             ''  const result = {'',
             ''        '' @ quoted ''p'' @ '': '' @ quoted ''/* TODO promise */'',
             ''  };'',
             ''  return { ...result, ...overrides }'',
             ''}'',
             []]))"
  by code_simp

subsection \<open>Depth guards\<close>

text \<open>
  An array whose element is a reference flagged \<open>recursiveEdge\<close>, inside an entity with
  recursion, is emitted with the test \<open>depth >= maxDepth\<close> in front of the call.
\<close>

lemma recursive_array_guarded:
  assumes "recursiveEdge a" and "entityHasRecursion ctx" and "refTypeName refVal \<noteq> ''__type''"
  shows "generateValue cfg (ArrayP b (ReferenceP a refVal # others)) path includeTypes ctx
         = ([], Inr (Str (''depth >= maxDepth ? ''
                          @ (if includeTypes then ''([] as '' @ refTypeName refVal @ ''[])'' else ''[]'')
                          @ '' : faker.helpers.multiple(() => ''
                          @ (if passOpts True (refTypeName refVal) ctx
                             then optionsCall (refTypeName refVal)
                             else plainCall (refTypeName refVal))
                          @ '')'')))"
  using assms by (simp add: ret_def arrayOfReference_def Let_def)

text \<open>
  A reference outside an array is emitted as the bare call of the target factory, flagged
  or not: the flag only decides whether \<open>depth + 1\<close> is handed on. No test of the depth
  is emitted on this path.
\<close>

lemma reference_call_unguarded:
  assumes "refTypeName refVal \<noteq> ''__type''" and "refTypeName refVal \<notin> set (genericParamSet ctx)"
  shows "generateValue cfg (ReferenceP a refVal) path includeTypes ctx
         = ([], Inr (Str (if recursiveEdge a \<and> entityHasRecursion ctx
                             \<and> passOpts False (refTypeName refVal) ctx
                          then optionsCall (refTypeName refVal)
                          else plainCall (refTypeName refVal))))"
  using assms by (simp add: ret_def generateReferenceValue_def Let_def)

text \<open>
  C1. An edge flagged \<open>recursiveEdge\<close> is emitted without a depth guard when it is a
  plain reference: for \<open>interface A { next: A }\<close> the factory \<open>MockA\<close> fills \<open>next\<close> with
  \<open>MockA({}, { depth: depth + 1, maxDepth })\<close>, and its text holds no test
  \<open>>= maxDepth\<close>, so every call of \<open>MockA\<close> calls \<open>MockA\<close> again.
\<close>

theorem recursive_reference_unguarded:
  "generateBody emptyConfig
     [(mkEntity ''A'' (InstanceE [ReferenceP (noAttrs\<lparr>pname := ''next'', recursiveEdge := True\<rparr>) ''A''] []))
        \<lparr>hasRecursion := True\<rparr>]
     False False ''ts''
   = ([],
      Inr (join [CHR 0x0A]
            [''function MockA(overrides = {}, __options = {}) {'',
             ''  const { depth = 0, maxDepth = 2 } = __options;'',
             ''  const result = {'',
             ''        '' @ quoted ''next'' @ '': MockA({}, { depth: depth + 1, maxDepth })'',
             ''  };'',
             ''  return { ...result, ...overrides }'',
             ''}'',
             []]))
   \<and> \<not> str_includes
         (join [CHR 0x0A]
            [''function MockA(overrides = {}, __options = {}) {'',
             ''  const { depth = 0, maxDepth = 2 } = __options;'',
             ''  const result = {'',
             ''        '' @ quoted ''next'' @ '': MockA({}, { depth: depth + 1, maxDepth })'',
             ''  };'',
             ''  return { ...result, ...overrides }'',
             ''}'',
             []])
         ''>= maxDepth''"
  by code_simp

subsection \<open>The mapping provider\<close>



subsection \<open>Pattern resolution\<close>

lemma set_first_seen [simp]: "set (first_seen xs) = set xs"
  by (induction xs) auto

lemma distinct_first_seen [simp]: "distinct (first_seen xs)"
  by (induction xs) auto

lemma first_seen_snoc:
  "first_seen (xs @ [g]) = (if g \<in> set xs then first_seen xs else first_seen xs @ [g])"
  by (induction xs) auto

lemma first_seen_distinct: "distinct xs \<Longrightarrow> first_seen xs = xs"
proof (induction xs)
  case Nil then show ?case by simp
next
  case (Cons x xs)
  then have "filter (\<lambda>y. y \<noteq> x) xs = xs" by (auto intro: filter_True)
  with Cons show ?case by simp
qed

lemma object_entries_plain:
  "list_all (\<lambda>kv. \<not> is_array_index (fst kv)) obj \<Longrightarrow> object_entries obj = obj"
proof -
  assume a: "list_all (\<lambda>kv. \<not> is_array_index (fst kv)) obj"
  then have 1: "filter (\<lambda>kv. is_array_index (fst kv)) obj = []"
    by (induction obj) auto
  from a have 2: "filter (\<lambda>kv. \<not> is_array_index (fst kv)) obj = obj"
    by (induction obj) auto
  show ?thesis by (simp add: object_entries_def 1 2)
qed

lemma set_object_entries [simp]: "set (object_entries obj) = set obj"
  by (auto simp: object_entries_def)

lemma push_pattern_absent:
  "g \<notin> fst ` set al \<Longrightarrow> push_pattern g p al = al @ [(g, MList [p])]"
  by (induction al) auto

lemma push_pattern_present:
  "distinct ks \<Longrightarrow> g \<in> set ks \<Longrightarrow>
   push_pattern g p (map (\<lambda>k. (k, MList (F k))) ks)
   = map (\<lambda>k. (k, MList (if k = g then F k @ [p] else F k))) ks"
proof (induction ks)
  case Nil then show ?case by simp
next
  case (Cons k ks)
  show ?case
  proof (cases "k = g")
    case True
    with Cons.prems have "g \<notin> set ks" by simp
    then have "map (\<lambda>k. (k, MList (F k))) ks = map (\<lambda>k. (k, MList (if k = g then F k @ [p] else F k))) ks"
      by (induction ks) auto
    with True show ?thesis by simp
  next
    case False
    with Cons show ?thesis by simp
  qed
qed

lemma groups_snoc: "groups (tbl @ [(p, g)]) = push_pattern g p (groups tbl)"
proof (cases "g \<in> snd ` set tbl")
  case True
  then have gs: "g \<in> set (first_seen (map snd tbl))" by simp
  have "groups (tbl @ [(p, g)])
        = map (\<lambda>k. (k, MList (if k = g then patterns_of tbl k @ [p] else patterns_of tbl k)))
            (first_seen (map snd tbl))"
    using True by (auto simp: groups_def first_seen_snoc patterns_of_def)
  also have "\<dots> = push_pattern g p (groups tbl)"
    unfolding groups_def by (rule push_pattern_present[symmetric, OF distinct_first_seen gs])
  finally show ?thesis .
next
  case False
  then have "g \<notin> fst ` set (groups tbl)" by (force simp: groups_def)
  then have "push_pattern g p (groups tbl) = groups tbl @ [(g, MList [p])]"
    by (rule push_pattern_absent)
  moreover have "patterns_of (tbl @ [(p, g)]) g = [p]"
    using False by (force simp: patterns_of_def filter_empty_conv)
  moreover have "map (\<lambda>k. (k, MList (patterns_of (tbl @ [(p, g)]) k))) (first_seen (map snd tbl))
                 = map (\<lambda>k. (k, MList (patterns_of tbl k))) (first_seen (map snd tbl))"
    using False by (intro map_cong refl) (force simp: patterns_of_def)
  ultimately show ?thesis using False
    by (simp only: groups_def first_seen_snoc map_append list.map set_map if_False)
       simp
qed

lemma normalize_groups:
  "list_all (\<lambda>pg. snd pg \<notin> set object_prototype_keys) tbl \<Longrightarrow>
   normalize (new_shape tbl) (groups pre) = Inr (groups (pre @ tbl))"
proof (induction tbl arbitrary: pre)
  case Nil then show ?case by (simp add: new_shape_def)
next
  case (Cons pg tbl)
  obtain p g where pg: "pg = (p, g)" by (cases pg)
  from Cons.prems have rest: "list_all (\<lambda>pg. snd pg \<notin> set object_prototype_keys) tbl"
    and ok: "g \<notin> set object_prototype_keys" by (auto simp: pg)
  have "normalize (new_shape (pg # tbl)) (groups pre)
        = normalize (new_shape tbl) (push_pattern g p (groups pre))"
    using ok by (simp add: new_shape_def pg)
  also have "\<dots> = normalize (new_shape tbl) (groups (pre @ [(p, g)]))"
    by (simp add: groups_snoc)
  also have "\<dots> = Inr (groups ((pre @ [(p, g)]) @ tbl))"
    by (rule Cons.IH[OF rest])
  finally show ?case by (simp add: pg)
qed

lemma normalize_pairs: "normalize es acc = normalize (new_shape (pairs_of es)) acc"
proof (induction es arbitrary: acc)
  case Nil
  show ?case by (simp add: pairs_of_def new_shape_def)
next
  case (Cons kv es)
  obtain k v where kv: "kv = (k, v)" by (cases kv)
  show ?case
  proof (cases v)
    case (MStr g)
    have "pairs_of (kv # es) = (k, g) # pairs_of es" by (simp add: pairs_of_def kv MStr)
    then show ?thesis using Cons.IH by (simp add: kv MStr new_shape_def)
  next
    case (MList ps)
    have "pairs_of (kv # es) = pairs_of es" by (simp add: pairs_of_def kv MList)
    then show ?thesis using Cons.IH by (simp add: kv MList)
  qed
qed

lemma normalize_entries:
  assumes "list_all (\<lambda>pg. snd pg \<notin> set object_prototype_keys) (pairs_of es)"
  shows "normalize es [] = Inr (groups (pairs_of es))"
proof -
  have "normalize es [] = normalize (new_shape (pairs_of es)) (groups [])"
    by (simp add: normalize_pairs[of es "[]"] groups_def)
  also have "\<dots> = Inr (groups ([] @ pairs_of es))" by (rule normalize_groups[OF assms])
  finally show ?thesis by simp
qed

lemma compile_patterns_ok:
  "list_all (compiles newRegExp) ps \<Longrightarrow>
   compile_patterns newRegExp g ps = Inr (map (\<lambda>p. (projr (generateRegexp newRegExp p), g)) ps)"
  by (induction ps) (auto simp: compiles_def split: sum.splits)

lemma flatten_Cons_list: "flatten ((g, MList ps) # es) = map (\<lambda>p. (p, g)) ps @ flatten es"
  by (simp add: flatten_def)

lemma compile_entries_ok:
  "list_all (\<lambda>kv. is_list (snd kv)) es \<Longrightarrow>
   list_all (\<lambda>pg. compiles newRegExp (fst pg)) (flatten es) \<Longrightarrow>
   compile_entries newRegExp es
   = Inr (map (\<lambda>pg. (projr (generateRegexp newRegExp (fst pg)), snd pg)) (flatten es))"
proof (induction es)
  case Nil
  show ?case by (simp add: flatten_def)
next
  case (Cons kv es)
  obtain g v where kv: "kv = (g, v)" by (cases kv)
  from Cons.prems(1) kv obtain ps where v: "v = MList ps" by (cases v) (auto simp: is_list_def)
  from Cons.prems(2)
  have both: "list_all (\<lambda>pg. compiles newRegExp (fst pg)) (map (\<lambda>p. (p, g)) ps)
              \<and> list_all (\<lambda>pg. compiles newRegExp (fst pg)) (flatten es)"
    by (simp add: kv v flatten_Cons_list)
  then have ps: "list_all (compiles newRegExp) ps" by (simp add: list_all_iff)
  from both have rest: "list_all (\<lambda>pg. compiles newRegExp (fst pg)) (flatten es)" by simp
  from Cons.prems(1) have lists: "list_all (\<lambda>kv. is_list (snd kv)) es" by simp
  show ?case
    using compile_patterns_ok[OF ps, of g] Cons.IH[OF lists rest]
    by (simp add: kv v flatten_Cons_list comp_def)
qed

lemma inferGenerator_find:
  "list_all (\<lambda>pg. compiles newRegExp (fst pg)) L \<Longrightarrow>
   inferGenerator (map (\<lambda>pg. (projr (generateRegexp newRegExp (fst pg)), snd pg)) L) path
   = first_match newRegExp L path"
  by (induction L)
     (auto simp: inferGenerator_def first_match_def pattern_matches_def compiles_def
           split: sum.splits)

lemma groups_lists: "list_all (\<lambda>kv. is_list (snd kv)) (groups tbl)"
  by (simp add: groups_def list_all_iff is_list_def)

lemma flatten_groups: "flatten (groups tbl) = regrouped tbl"
  by (simp add: flatten_def groups_def regrouped_def comp_def)

lemma regrouped_distinct:
  "distinct (map snd tbl) \<Longrightarrow> regrouped tbl = tbl"
proof (induction tbl rule: rev_induct)
  case Nil then show ?case by (simp add: regrouped_def)
next
  case (snoc pg tbl)
  obtain p g where pg: "pg = (p, g)" by (cases pg)
  from snoc.prems have d: "distinct (map snd tbl)" and ng: "g \<notin> snd ` set tbl" by (auto simp: pg)
  have a: "map (\<lambda>k. map (\<lambda>q. (q, k)) (patterns_of (tbl @ [(p, g)]) k)) (first_seen (map snd tbl))
           = map (\<lambda>k. map (\<lambda>q. (q, k)) (patterns_of tbl k)) (first_seen (map snd tbl))"
    using ng by (intro map_cong refl) (force simp: patterns_of_def)
  have b: "patterns_of (tbl @ [(p, g)]) g = [p]"
    using ng by (force simp: patterns_of_def filter_empty_conv)
  have "regrouped (tbl @ [(p, g)])
        = concat (map (\<lambda>k. map (\<lambda>q. (q, k)) (patterns_of (tbl @ [(p, g)]) k))
                   (first_seen (map snd tbl)))
          @ map (\<lambda>q. (q, g)) (patterns_of (tbl @ [(p, g)]) g)"
    using ng by (simp add: regrouped_def first_seen_snoc)
  also have "\<dots> = regrouped tbl @ [(p, g)]"
    by (simp only: a b regrouped_def) simp
  finally have "regrouped (tbl @ [(p, g)]) = regrouped tbl @ [(p, g)]" .
  with snoc.IH[OF d] show ?case by (simp add: pg)
qed

lemma declared_lists:
  "list_all (\<lambda>kv. is_list (snd kv)) tbl \<Longrightarrow> declared_order tbl = flatten tbl"
  by (induction tbl) (auto simp: declared_order_def flatten_def is_list_def split: mval.splits)

lemma declared_strings:
  "list_all (\<lambda>kv. \<not> is_list (snd kv)) tbl \<Longrightarrow> declared_order tbl = pairs_of tbl"
  by (induction tbl) (auto simp: declared_order_def pairs_of_def is_list_def split: mval.splits)

lemma compiled_order_regrouped:
  assumes keys: "list_all (\<lambda>kv. \<not> is_array_index (fst kv)) tbl"
    and exprs: "list_all (\<lambda>pg. \<not> is_array_index (snd pg)) (pairs_of tbl)"
    and first: "tbl = kv # rest" "\<not> is_list (snd kv)"
  shows "compiled_order tbl = regrouped (pairs_of tbl)"
proof -
  have oe: "object_entries tbl = tbl" by (rule object_entries_plain[OF keys])
  have "list_all (\<lambda>kv. \<not> is_array_index (fst kv)) (groups (pairs_of tbl))"
    using exprs by (auto simp: groups_def list_all_iff)
  then have og: "object_entries (groups (pairs_of tbl)) = groups (pairs_of tbl)"
    by (rule object_entries_plain)
  have "compiled_order tbl = flatten (object_entries (groups (pairs_of tbl)))"
    unfolding compiled_order_def oe by (simp add: first)
  then show ?thesis by (simp add: og flatten_groups)
qed

lemma compiled_order_declared:
  assumes "declaration_ordered tbl"
  shows "compiled_order tbl = declared_order tbl"
proof (cases tbl)
  case Nil
  then show ?thesis by (simp add: compiled_order_def object_entries_def declared_order_def)
next
  case (Cons kv rest)
  from assms have keys: "list_all (\<lambda>kv. \<not> is_array_index (fst kv)) tbl"
    by (simp add: declaration_ordered_def)
  have oe: "object_entries tbl = tbl" by (rule object_entries_plain[OF keys])
  show ?thesis
  proof (cases "is_list (snd kv)")
    case True
    with assms Cons have lists: "list_all (\<lambda>kv. is_list (snd kv)) tbl"
      by (auto simp: declaration_ordered_def)
    have "compiled_order tbl = flatten tbl"
      unfolding compiled_order_def oe using True by (simp add: Cons)
    then show ?thesis by (simp add: declared_lists[OF lists])
  next
    case False
    with assms Cons have strs: "list_all (\<lambda>kv. \<not> is_list (snd kv)) tbl"
      and d: "distinct (map snd (pairs_of tbl))"
      and exprs: "list_all (\<lambda>pg. \<not> is_array_index (snd pg)) (pairs_of tbl)"
      by (auto simp: declaration_ordered_def)
    from compiled_order_regrouped[OF keys exprs Cons False] regrouped_distinct[OF d]
    show ?thesis by (simp add: declared_strings[OF strs])
  qed
qed

text \<open>\<open>setMappings\<close> returns on the accepted tables only.\<close>

lemma compile_patterns_Inr:
  "compile_patterns newRegExp g ps = Inr ms \<Longrightarrow> list_all (compiles newRegExp) ps"
  by (induction ps arbitrary: ms) (auto simp: compiles_def split: sum.splits)

lemma compile_entries_Inr:
  "compile_entries newRegExp es = Inr ms \<Longrightarrow>
   list_all (\<lambda>kv. is_list (snd kv)) es
   \<and> list_all (\<lambda>pg. compiles newRegExp (fst pg)) (flatten es)"
proof (induction es arbitrary: ms)
  case Nil
  show ?case by (simp add: flatten_def)
next
  case (Cons kv es)
  obtain g v where kv: "kv = (g, v)" by (cases kv)
  from Cons.prems kv obtain ps where v: "v = MList ps" by (cases v) auto
  from Cons.prems obtain m1 m2 where
    m1: "compile_patterns newRegExp g ps = Inr m1" and m2: "compile_entries newRegExp es = Inr m2"
    by (auto simp: kv v split: sum.splits)
  from compile_patterns_Inr[OF m1] have "list_all (\<lambda>pg. compiles newRegExp (fst pg)) (map (\<lambda>p. (p, g)) ps)"
    by (simp add: list_all_iff)
  with Cons.IH[OF m2] show ?case by (simp add: kv v flatten_Cons_list is_list_def)
qed

lemma keys_push_pattern: "fst ` set (push_pattern g p al) = insert g (fst ` set al)"
proof (induction al)
  case Nil
  show ?case by simp
next
  case (Cons kv al)
  obtain k v where kv: "kv = (k, v)" by (cases kv)
  show ?case
  proof (cases "k = g")
    case True
    then show ?thesis by (simp add: kv)
  next
    case False
    with Cons.IH show ?thesis by (simp add: kv insert_commute)
  qed
qed

lemma pairs_of_Cons_str: "pairs_of ((k, MStr g) # es) = (k, g) # pairs_of es"
  by (simp add: pairs_of_def)

lemma pairs_of_Cons_list: "pairs_of ((k, MList ps) # es) = pairs_of es"
  by (simp add: pairs_of_def)

lemma normalize_Inr:
  "normalize es acc = Inr n \<Longrightarrow> fst ` set acc \<inter> set object_prototype_keys = {} \<Longrightarrow>
   list_all (\<lambda>pg. snd pg \<notin> set object_prototype_keys) (pairs_of es)"
proof (induction es arbitrary: acc)
  case Nil
  show ?case by (simp add: pairs_of_def)
next
  case (Cons kv es)
  obtain k v where kv: "kv = (k, v)" by (cases kv)
  show ?case
  proof (cases v)
    case (MList ps)
    with Cons kv show ?thesis by (simp add: pairs_of_Cons_list)
  next
    case (MStr g)
    from Cons.prems(1) have ok: "\<not> (g \<notin> fst ` set acc \<and> g \<in> set object_prototype_keys)"
      and rest: "normalize es (push_pattern g k acc) = Inr n"
      by (auto simp: kv MStr split: if_splits)
    from ok Cons.prems(2) have g: "g \<notin> set object_prototype_keys" by blast
    with Cons.prems(2) have "fst ` set (push_pattern g k acc) \<inter> set object_prototype_keys = {}"
      by (simp add: keys_push_pattern)
    from Cons.IH[OF rest this] g show ?thesis by (simp add: kv MStr pairs_of_Cons_str)
  qed
qed

lemma setMappings_accepted:
  assumes "setMappings newRegExp (Some tbl) = Inr ms"
  shows "accepted newRegExp tbl"
proof (cases "object_entries tbl")
  case Nil
  then show ?thesis by (simp add: accepted_def compiled_order_def)
next
  case (Cons kv rest)
  obtain k v where kv: "kv = (k, v)" by (cases kv)
  show ?thesis
  proof (cases v)
    case (MList ps)
    from assms Cons kv MList have "compile_entries newRegExp (object_entries tbl) = Inr ms"
      by (simp add: setMappings_def defineGeneratorMatchers_def)
    from compile_entries_Inr[OF this] Cons kv MList show ?thesis
      by (simp add: accepted_def compiled_order_def is_list_def)
  next
    case (MStr g)
    from assms Cons kv MStr obtain n where n: "normalize (object_entries tbl) [] = Inr n"
      and ce: "compile_entries newRegExp (object_entries n) = Inr ms"
      by (auto simp: setMappings_def defineGeneratorMatchers_def split: sum.splits)
    from normalize_Inr[OF n]
    have proto: "list_all (\<lambda>pg. snd pg \<notin> set object_prototype_keys) (pairs_of (object_entries tbl))"
      by simp
    from normalize_entries[OF proto] n have "n = groups (pairs_of (object_entries tbl))" by simp
    with compile_entries_Inr[OF ce] proto Cons kv MStr show ?thesis
      by (simp add: accepted_def compiled_order_def is_list_def)
  qed
qed

text \<open>
  C4, as the code has it. For every constructor \<open>RegExp\<close> and every pattern table on
  which \<open>setMappings\<close> does not raise, the pattern lookup returns the expression of the
  first matching pattern in the order in which the table is compiled. For a table of the
  shape expression to patterns, and for a table of the shape pattern to expression in
  which no expression is used twice, that is the declaration order (no key or expression
  being an array index). A table of the shape pattern to expression is otherwise
  regrouped by expression.
\<close>

theorem pattern_resolution_order:
  assumes "accepted newRegExp tbl"
  shows "\<exists>ms. setMappings newRegExp (Some tbl) = Inr ms
          \<and> (\<forall>path. inferGenerator ms path = first_match newRegExp (compiled_order tbl) path)
          \<and> (declaration_ordered tbl \<longrightarrow>
               (\<forall>path. inferGenerator ms path = first_match newRegExp (declared_order tbl) path))"
proof -
  let ?ms = "map (\<lambda>pg. (projr (generateRegexp newRegExp (fst pg)), snd pg)) (compiled_order tbl)"
  from assms have comp: "list_all (\<lambda>pg. compiles newRegExp (fst pg)) (compiled_order tbl)"
    by (simp add: accepted_def)
  have sm: "setMappings newRegExp (Some tbl) = Inr ?ms"
  proof (cases "object_entries tbl")
    case Nil
    then show ?thesis
      by (simp add: setMappings_def defineGeneratorMatchers_def compiled_order_def object_entries_def)
  next
    case (Cons kv rest)
    obtain k v where kv: "kv = (k, v)" by (cases kv)
    show ?thesis
    proof (cases "is_list v")
      case True
      then obtain ps where v: "v = MList ps" by (cases v) (auto simp: is_list_def)
      from assms Cons True kv have lists: "list_all (\<lambda>kv. is_list (snd kv)) (object_entries tbl)"
        by (simp add: accepted_def)
      have co: "compiled_order tbl = flatten (object_entries tbl)"
        using Cons True kv by (simp add: compiled_order_def)
      from compile_entries_ok[OF lists] comp co
      have "compile_entries newRegExp (object_entries tbl) = Inr ?ms" by simp
      then show ?thesis using Cons kv v by (simp add: setMappings_def defineGeneratorMatchers_def)
    next
      case False
      then obtain g where v: "v = MStr g" by (cases v) (auto simp: is_list_def)
      from assms Cons False kv
      have proto: "list_all (\<lambda>pg. snd pg \<notin> set object_prototype_keys) (pairs_of (object_entries tbl))"
        by (simp add: accepted_def)
      let ?n = "groups (pairs_of (object_entries tbl))"
      have norm: "normalize (object_entries tbl) [] = Inr ?n" by (rule normalize_entries[OF proto])
      have co: "compiled_order tbl = flatten (object_entries ?n)"
        using Cons False kv by (simp add: compiled_order_def)
      have lists: "list_all (\<lambda>kv. is_list (snd kv)) (object_entries ?n)"
        using groups_lists[of "pairs_of (object_entries tbl)"] by (simp add: list_all_iff)
      from compile_entries_ok[OF lists] comp co
      have "compile_entries newRegExp (object_entries ?n) = Inr ?ms" by simp
      then show ?thesis
        using Cons kv v norm by (simp add: setMappings_def defineGeneratorMatchers_def)
    qed
  qed
  have inf: "\<And>path. inferGenerator ?ms path = first_match newRegExp (compiled_order tbl) path"
    by (rule inferGenerator_find[OF comp])
  show ?thesis using sm inf by (auto simp: compiled_order_declared)
qed


theorem pattern_resolution_order_witness:
  "accepted wildcardRegExp [(''*.id'', MStr ''uuid-expr'')]
   \<and> declaration_ordered [(''*.id'', MStr ''uuid-expr'')]
   \<and> (\<exists>ms. setMappings wildcardRegExp (Some [(''*.id'', MStr ''uuid-expr'')]) = Inr ms
            \<and> inferGenerator ms ''User.id'' = Some ''uuid-expr''
            \<and> inferGenerator ms ''User.identifier'' = None)"
proof -
  have h: "accepted wildcardRegExp [(''*.id'', MStr ''uuid-expr'')]" by code_simp
  have d: "declaration_ordered [(''*.id'', MStr ''uuid-expr'')]" by code_simp
  from pattern_resolution_order [OF h] d obtain ms where
    ms: "setMappings wildcardRegExp (Some [(''*.id'', MStr ''uuid-expr'')]) = Inr ms"
    and inf: "\<forall>path. inferGenerator ms path
                = first_match wildcardRegExp (declared_order [(''*.id'', MStr ''uuid-expr'')]) path"
    by blast
  have "first_match wildcardRegExp (declared_order [(''*.id'', MStr ''uuid-expr'')]) ''User.id''
        = Some ''uuid-expr''" by code_simp
  moreover have "first_match wildcardRegExp (declared_order [(''*.id'', MStr ''uuid-expr'')])
                   ''User.identifier'' = None" by code_simp
  ultimately show ?thesis using h d ms inf by auto
qed

text \<open>
  C4 as stated fails: in the table \<open>*.id\<close> to \<open>A\<close>, \<open>*.name\<close> to \<open>B\<close>, \<open>User.*\<close> to
  \<open>A\<close>, the first declared pattern that matches \<open>User.name\<close> is \<open>*.name\<close>, but the
  lookup returns \<open>A\<close>: \<open>User.*\<close> was moved in front of \<open>*.name\<close> with the other
  pattern of \<open>A\<close>.
\<close>

theorem first_declared_match_counterexample:
  "(case setMappings wildcardRegExp (Some ctab) of
      Inr ms \<Rightarrow> inferGenerator ms ''User.name'' | Inl e \<Rightarrow> None) = Some ''A''
   \<and> first_match wildcardRegExp (declared_order ctab) ''User.name'' = Some ''B''"
  by code_simp

text \<open>
  The regrouped table written in the shape expression to patterns, where the declaration
  order is the compiled order; and a pattern with a quantifier.
\<close>

lemma legacy_table_example:
  "accepted wildcardRegExp legacyTable \<and> declaration_ordered legacyTable
   \<and> (case setMappings wildcardRegExp (Some legacyTable) of
        Inr ms \<Rightarrow> inferGenerator ms ''User.name'' | Inl e \<Rightarrow> None) = Some ''A''
   \<and> declared_order legacyTable = [(''*.id'', ''A''), (''User.*'', ''A''), (''*.name'', ''B'')]"
  by code_simp

lemma quantifier_pattern_example:
  "(case setMappings wildcardRegExp (Some [(''*.a+b'', MStr ''g'')]) of
      Inr ms \<Rightarrow> inferGenerator ms ''X.aab'' | Inl e \<Rightarrow> None) = Some ''g''"
  by code_simp


text \<open>The example of the specification, through \<open>getFakerGenerator\<close> without a provider.\<close>

lemma uuid_example:
  "(case setMappings wildcardRegExp (Some [(''*.id'', MStr ''uuid-expr'')]) of
      Inr ms \<Rightarrow>
        (getFakerGenerator \<lparr>inferMatchers = ms, mappingProviderFunc = None\<rparr>
           ''string'' ''User.id'' selfContext,
         getFakerGenerator \<lparr>inferMatchers = ms, mappingProviderFunc = None\<rparr>
           ''number'' ''User.identifier'' selfContext)
    | Inl e \<Rightarrow> (([], []), ([], [])))
   = (([], ''uuid-expr''), ([], ''faker.number.int(10000)''))"
  by code_simp

subsection \<open>Inherited properties\<close>

lemma push_new_append: "push_new (ps @ qs) out = push_new qs (push_new ps out)"
  by (induction ps arbitrary: out) auto

lemma names_filter_other:
  "prop_name ` set (filter (\<lambda>q. prop_name q \<noteq> n) xs) = prop_name ` set xs - {n}"
  by force

lemma names_keep_first: "prop_name ` set (keep_first ps) = prop_name ` set ps"
proof (induction ps)
  case Nil
  then show ?case by simp
next
  case (Cons p ps)
  have "prop_name ` set (keep_first (p # ps))
        = insert (prop_name p) (prop_name ` set (keep_first ps) - {prop_name p})"
    by (simp only: keep_first.simps list.set image_insert names_filter_other)
  also have "\<dots> = insert (prop_name p) (prop_name ` set ps)"
    using Cons by auto
  finally show ?case by simp
qed

lemma list_ex_names: "list_ex (\<lambda>op. prop_name op = n) out \<longleftrightarrow> n \<in> prop_name ` set out"
  unfolding list_ex_iff by auto

lemma push_new_keep_first:
  "push_new ps out = out @ filter (\<lambda>q. prop_name q \<notin> prop_name ` set out) (keep_first ps)"
proof (induction ps arbitrary: out)
  case Nil
  then show ?case by simp
next
  case (Cons p ps)
  show ?case
  proof (cases "prop_name p \<in> prop_name ` set out")
    case True
    have "filter (\<lambda>q. prop_name q \<notin> prop_name ` set out)
                     (filter (\<lambda>q. prop_name q \<noteq> prop_name p) (keep_first ps))
                   = filter (\<lambda>q. prop_name q \<notin> prop_name ` set out) (keep_first ps)"
      unfolding filter_filter using True by (intro filter_cong refl) auto
    then show ?thesis using True by (simp add: Cons.IH list_ex_names)
  next
    case False
    have "filter (\<lambda>q. prop_name q \<notin> prop_name ` set (out @ [p])) (keep_first ps)
                   = filter (\<lambda>q. prop_name q \<notin> prop_name ` set out)
                       (filter (\<lambda>q. prop_name q \<noteq> prop_name p) (keep_first ps))"
      unfolding filter_filter by (intro filter_cong refl) auto
    then show ?thesis using False by (simp add: Cons.IH list_ex_names)
  qed
qed

lemma distinct_keep_first: "distinct (map prop_name (keep_first ps))"
proof (induction ps)
  case Nil
  then show ?case by simp
next
  case (Cons p ps)
  have "distinct (map prop_name (filter (\<lambda>q. prop_name q \<noteq> prop_name p) (keep_first ps)))"
    using Cons by (simp add: distinct_map_filter)
  then show ?case by auto
qed

lemma walk_visited:
  "walk env pending seen out = push_new (concat (map properties_of (visited env pending seen))) out"
proof (induction env pending seen out rule: walk.induct)
  case (1 env seen out)
  then show ?case by (simp add: walk.simps visited.simps)
next
  case (2 env b pending seen out)
  show ?case
  proof (cases "fst b = [] \<or> baseNameOf b \<in> set seen")
    case True
    with 2 show ?thesis by (auto simp: walk.simps visited.simps)
  next
    case False
    show ?thesis
    proof (cases "resolveBaseEntity env (fst b) (snd b)")
      case None
      with False 2 show ?thesis by (simp add: walk.simps visited.simps)
    next
      case (Some ent)
      with False 2 show ?thesis by (simp add: walk.simps visited.simps push_new_append)
    qed
  qed
qed

lemma distinct_count_one:
  "distinct xs \<Longrightarrow> x \<in> set xs \<Longrightarrow> length (filter (\<lambda>y. y = x) xs) = 1"
  by (induction xs) (auto simp: filter_empty_conv)

text \<open>
  C6, as the code has it. The walk is a total function (its termination is proved with
  the definition, for every graph of bases, cyclic or not). Its result holds each
  property name at most once, and the property kept for a name is the first one in the
  order of the visits: the walk is depth-first, so a base comes before its own bases,
  and those before the next base of the same entity. Every property name of every
  visited entity occurs exactly once in the result.
\<close>

theorem inherited_properties_first_visit_wins:
  "collectPropsTransitive env ex loc
     = keep_first (concat (map properties_of (visited env [(ex, loc)] [])))
   \<and> distinct (map prop_name (collectPropsTransitive env ex loc))
   \<and> (\<forall>ent \<in> set (visited env [(ex, loc)] []). \<forall>p \<in> set (properties_of ent).
         length (filter (\<lambda>n. n = prop_name p) (map prop_name (collectPropsTransitive env ex loc))) = 1)"
proof -
  let ?all = "concat (map properties_of (visited env [(ex, loc)] []))"
  have eq: "collectPropsTransitive env ex loc = keep_first ?all"
    by (simp add: collectPropsTransitive_def walk_visited push_new_keep_first)
  have d: "distinct (map prop_name (collectPropsTransitive env ex loc))"
    by (simp add: eq distinct_keep_first)
  have "length (filter (\<lambda>n. n = prop_name p) (map prop_name (collectPropsTransitive env ex loc))) = 1"
    if "ent \<in> set (visited env [(ex, loc)] [])" and "p \<in> set (properties_of ent)" for ent p
  proof -
    from that have "prop_name p \<in> prop_name ` set ?all" by auto
    then have "prop_name p \<in> set (map prop_name (collectPropsTransitive env ex loc))"
      by (simp add: eq names_keep_first)
    with d show ?thesis by (rule distinct_count_one)
  qed
  with d eq show ?thesis by blast
qed


theorem inherited_properties_first_visit_wins_witness:
  "diamondA \<in> set (visited diamondEnv [(''D'', None)] [])
   \<and> prim ''x'' ''string'' \<in> set (properties_of diamondA)
   \<and> length (filter (\<lambda>n. n = ''x'') (map prop_name (collectPropsTransitive diamondEnv ''D'' None))) = 1"
proof -
  have h1: "diamondA \<in> set (visited diamondEnv [(''D'', None)] [])" by code_simp
  have h2: "prim ''x'' ''string'' \<in> set (properties_of diamondA)" by code_simp
  from inherited_properties_first_visit_wins [of diamondEnv "''D''" None] h1 h2
  have "length (filter (\<lambda>n. n = prop_name (prim ''x'' ''string''))
                  (map prop_name (collectPropsTransitive diamondEnv ''D'' None))) = 1"
    by blast
  then show ?thesis using h1 h2 by (simp add: prop_name_def prim_def)
qed

text \<open>A cycle of two bases: the walk from \<open>A\<close> visits \<open>A\<close> and \<open>B\<close> and stops.\<close>

lemma cyclic_inheritance_example:
  "collectPropsTransitive cyclicEnv ''A'' None = [prim ''a'' ''string'', prim ''b'' ''string'']"
  by code_simp

text \<open>
  C6 as stated fails where it says that the nearest, most derived base wins: in the
  diamond \<open>D\<close> extends \<open>B\<close>, \<open>C\<close>; \<open>B\<close>, \<open>C\<close> extend \<open>A\<close>, the walk from \<open>D\<close> reaches \<open>A\<close>
  through \<open>B\<close> before it reaches \<open>C\<close>, and the field \<open>x\<close> of \<open>A\<close> (a string) is kept
  instead of the field \<open>x\<close> of \<open>C\<close> (a number), though \<open>C\<close> is nearer to \<open>D\<close> and derived
  from \<open>A\<close>.
\<close>

theorem diamond_base_shadows_derived:
  "collectPropsTransitive diamondEnv ''D'' None
   = [prim ''d'' ''string'', prim ''b'' ''string'', prim ''x'' ''string'']"
  by code_simp



subsection \<open>Recursion analysis\<close>

lemma set_add_mono: "set acc \<subseteq> set (set_add x acc)"
  by (auto simp: set_add_def)


lemma foldl_grows:
  assumes "\<And>x a. x \<in> set xs \<Longrightarrow> set a \<subseteq> set (f x a)"
  shows "set a \<subseteq> set (foldl (\<lambda>a x. f x a) a xs)"
  using assms
proof (induction xs arbitrary: a)
  case Nil
  then show ?case by simp
next
  case (Cons y ys)
  have "set a \<subseteq> set (f y a)" using Cons.prems by simp
  also have "\<dots> \<subseteq> set (foldl (\<lambda>a x. f x a) (f y a) ys)"
    using Cons.prems by (intro Cons.IH) simp
  finally show ?case by simp
qed


lemma collectRefs_grows: "set acc \<subseteq> set (collectRefsFromProp p acc)"
proof (induction p arbitrary: acc)
  case (ReferenceP a v)
  then show ?case using set_add_mono by auto
qed (auto intro!: foldl_grows)

lemma collectRefs_member: "x \<in> set acc \<Longrightarrow> x \<in> set (collectRefsFromProp p acc)"
  using collectRefs_grows by blast
















lemma sequence_Inr: "sequence rs = Inr xs \<Longrightarrow> rs = map Inr xs"
proof (induction rs arbitrary: xs)
  case Nil
  then show ?case by simp
next
  case (Cons r rs)
  then show ?case by (cases r) (auto split: sum.splits)
qed

lemma sequence_map_member:
  assumes "sequence (map g vs) = Inr xs" and "x \<in> set vs"
  shows "\<exists>r \<in> set xs. g x = Inr r"
proof -
  from sequence_Inr[OF assms(1)] have eq: "map g vs = map Inr xs" .
  from assms(2) obtain i where i: "i < length vs" "vs ! i = x" by (auto simp: in_set_conv_nth)
  from eq have len: "length vs = length xs" by (metis length_map)
  from eq i len have "g x = Inr (xs ! i)" by (metis nth_map)
  with i len show ?thesis by auto
qed



lemma attrs_of_set_attrs [simp]: "attrs_of (set_attrs b v) = b"
  by (cases v) simp_all

lemma recursiveEdge_markRecursive [simp]: "recursiveEdge (attrs_of (markRecursive x))"
  by (simp add: markRecursive_def)



lemma children_markRecursive [simp]: "children (markRecursive y) = children y"
  by (cases y) (simp_all add: markRecursive_def)


lemma is_object_markRecursive [simp]: "is_object (markRecursive y) = is_object y"
  by (cases y) (simp_all add: markRecursive_def is_object_def)











text \<open>A self-referencing array field: the property and the reference are flagged.\<close>

lemma self_array_flagged:
  "annotateEntityWithRecursion selfArrayEntity (buildAdjacency [selfArrayEntity])
     (nodeToSccOf [[''E'']]) (\<lambda>n. [])
   = Inr (selfArrayEntity
           \<lparr>hasRecursion := True, cycleGroup := Some [''E''],
            body := InstanceE [ArrayP (noAttrs\<lparr>pname := ''children'', recursiveEdge := True\<rparr>)
                                 [ReferenceP (noAttrs\<lparr>recursiveEdge := True\<rparr>) ''E'']] []\<rparr>)"
  by code_simp


lemma self_loop_component:
  "computeSCC 2 (buildAdjacency [selfNestedEntity]) = Some [[''E'']]"
  by code_simp

subsection \<open>Strongly connected components\<close>

text \<open>
  C3. The components are not a partition of the vertex set when the empty string is a
  vertex. An anonymous class (\<open>export default class {}\<close>) is parsed with the name \<open>""\<close>
  and gives the adjacency map with the one key \<open>""\<close>; \<open>computeSCC\<close> pops the name, finds
  it falsy, and returns one empty component, so the vertex is in no component.
\<close>

theorem empty_name_lost:
  "computeSCC (Suc n) [([], [])] = Some [[]]"
  by (simp add: computeSCC_def enter_def leave_def succs_def set_add_def)

lemma empty_name_adjacency: "buildAdjacency [mkEntity [] (InstanceE [] [])] = [([], [])]"
  by code_simp

text \<open>The same slip drops a named vertex that shares a cycle with the empty name.\<close>

lemma empty_name_drops_cycle:
  "computeSCC 3 [(''A'', [[]]), ([], [''A''])] = Some [[]]"
  by code_simp

end
